theory Spec2Isabelle
  imports Complex_Main "HOL-Library.AList" "HOL-Library.Multiset"
begin

section \<open>Data model of \<^verbatim>\<open>ArbitrageAnalyzer\<close>\<close>

text \<open>
  Embedding of \<^verbatim>\<open>src/arbitrage_analyzer.py\<close>. Python dictionaries that the code
  iterates over are association lists in insertion order (the keys of a dictionary are
  distinct; the theorems that depend on it assume \<open>dict_keys_ok\<close>). Power figures are
  Python integers (\<open>int\<close>, with \<^verbatim>\<open>//\<close> as floor division \<open>div\<close>); prices,
  capabilities and money amounts are numbers of the reals, so floating-point rounding
  is not modelled. \<^verbatim>\<open>datetime.now()\<close> is an explicit clock reading passed to the
  function that calls it. A raised exception is \<open>Inl\<close> of the result.
\<close>

datatype error = ZeroDivisionError | UnboundLocalError | OverflowError

text \<open>Python's \<^verbatim>\<open>a / b\<close> on numbers: a zero divisor raises.\<close>

definition py_truediv :: "real \<Rightarrow> real \<Rightarrow> error + real" where
  "py_truediv a b = (if b = 0 then Inl ZeroDivisionError else Inr (a / b))"

text \<open>
  The expression \<^verbatim>\<open>(total_profit / total_cost * 100) if total_cost > 0 else 0\<close> that
  ends all three strategies; the division is only evaluated in the first branch.
\<close>

definition roi_expression :: "real \<Rightarrow> real \<Rightarrow> error + real" where
  "roi_expression total_profit' total_cost' =
     (if total_cost' > 0
      then (case py_truediv total_profit' total_cost' of
              Inl e \<Rightarrow> Inl e
            | Inr q \<Rightarrow> Inr (q * 100))
      else Inr 0)"

text \<open>\<^verbatim>\<open>inventory['miners'][subtype] = {'power': .., 'hashrate': ..}\<close>\<close>

record miner_specs =
  miner_power :: int
  hashrate :: real

text \<open>\<^verbatim>\<open>inventory['inference'][subtype] = {'power': .., 'tokens': ..}\<close>\<close>

record inference_specs =
  inference_power :: int
  tokens :: real

record inventory =
  miners :: "(string \<times> miner_specs) list"
  inference :: "(string \<times> inference_specs) list"

text \<open>The object state that the allocation methods read (\<^verbatim>\<open>self\<close>).\<close>

record analyzer =
  inventory :: inventory
  site_power_limit :: int

text \<open>The \<^verbatim>\<open>current_prices\<close> dictionary.\<close>

record price_snapshot =
  energy_price :: real
  hash_price :: real
  token_price :: real

text \<open>One dictionary of the \<^verbatim>\<open>machine_efficiency\<close> list.\<close>

record machine =
  mtype :: string
  subtype :: string
  power :: int
  profit_per_watt :: real
  revenue_per_watt :: real
  capability :: real
  price_type :: string

text \<open>One value of the \<^verbatim>\<open>allocation\<close> dictionary.\<close>

record allocation_entry =
  units :: int
  entry_type :: string
  entry_subtype :: string
  power_used :: int
  profit :: real
  revenue :: real
  cost :: real

text \<open>
  The four totals that every strategy returns; the optimizer's result extends them
  with the itemised allocation, the power used, the prices and the timestamp.
\<close>

record totals =
  total_profit :: real
  total_revenue :: real
  total_cost :: real
  roi_percentage :: real

record allocation_plan = totals +
  allocation :: "(string \<times> allocation_entry) list"
  total_power_used :: int
  prices :: price_snapshot
  timestamp :: string

section \<open>\<^verbatim>\<open>find_optimal_allocation\<close>\<close>

text \<open>The loop \<^verbatim>\<open>for miner_type, specs in self.inventory['miners'].items()\<close>;
  the division by \<^verbatim>\<open>specs['power']\<close> raises when the power is \<open>0\<close>.\<close>

fun analyze_miners :: "price_snapshot \<Rightarrow> (string \<times> miner_specs) list \<Rightarrow> error + machine list" where
  "analyze_miners current_prices [] = Inr []"
| "analyze_miners current_prices ((miner_type, specs) # rest) =
     (if miner_power specs = 0 then Inl ZeroDivisionError
      else
        let revenue_per_watt' =
              (hashrate specs * hash_price current_prices) / real_of_int (miner_power specs);
            cost_per_watt = energy_price current_prices;
            profit_per_watt' = revenue_per_watt' - cost_per_watt;
            m = \<lparr>mtype = ''miner'', subtype = miner_type, power = miner_power specs,
                 profit_per_watt = profit_per_watt', revenue_per_watt = revenue_per_watt',
                 capability = hashrate specs, price_type = ''hash_price''\<rparr>
        in (case analyze_miners current_prices rest of
              Inl e \<Rightarrow> Inl e
            | Inr ms \<Rightarrow> Inr (m # ms)))"

text \<open>The loop \<^verbatim>\<open>for compute_type, specs in self.inventory['inference'].items()\<close>.\<close>

fun analyze_inference :: "price_snapshot \<Rightarrow> (string \<times> inference_specs) list \<Rightarrow> error + machine list" where
  "analyze_inference current_prices [] = Inr []"
| "analyze_inference current_prices ((compute_type, specs) # rest) =
     (if inference_power specs = 0 then Inl ZeroDivisionError
      else
        let revenue_per_watt' =
              (tokens specs * token_price current_prices) / real_of_int (inference_power specs);
            cost_per_watt = energy_price current_prices;
            profit_per_watt' = revenue_per_watt' - cost_per_watt;
            m = \<lparr>mtype = ''inference'', subtype = compute_type, power = inference_power specs,
                 profit_per_watt = profit_per_watt', revenue_per_watt = revenue_per_watt',
                 capability = tokens specs, price_type = ''token_price''\<rparr>
        in (case analyze_inference current_prices rest of
              Inl e \<Rightarrow> Inl e
            | Inr ms \<Rightarrow> Inr (m # ms)))"

text \<open>The list \<^verbatim>\<open>machine_efficiency\<close> before it is sorted: miners, then inference.\<close>

definition machine_efficiency :: "analyzer \<Rightarrow> price_snapshot \<Rightarrow> error + machine list" where
  "machine_efficiency self current_prices =
     (case analyze_miners current_prices (miners (inventory self)) of
        Inl e \<Rightarrow> Inl e
      | Inr ms \<Rightarrow>
          (case analyze_inference current_prices (inference (inventory self)) of
             Inl e \<Rightarrow> Inl e
           | Inr cs \<Rightarrow> Inr (ms @ cs)))"

text \<open>
  \<^verbatim>\<open>machine_efficiency.sort(key=lambda x: x['profit_per_watt'], reverse=True)\<close>:
  Python's sort is stable, also with \<^verbatim>\<open>reverse=True\<close> (machines of equal key keep
  their order), which is the stable ascending sort on the negated key.
\<close>

definition sort_desc :: "machine list \<Rightarrow> machine list" where
  "sort_desc ms = sort_key (\<lambda>x. - profit_per_watt x) ms"

text \<open>The dictionary key \<^verbatim>\<open>f"{machine['subtype']}_{machine['type']}"\<close>.\<close>

definition alloc_key :: "machine \<Rightarrow> string" where
  "alloc_key m = subtype m @ ''_'' @ mtype m"

text \<open>
  The greedy loop \<^verbatim>\<open>for machine in machine_efficiency\<close>, with the five variables
  it updates passed as state. \<^verbatim>\<open>allocation[key] = ..\<close> is \<open>AList.update\<close>: an existing
  key keeps its place, a new one is appended.
\<close>

fun greedy ::
  "price_snapshot \<Rightarrow> machine list \<Rightarrow>
   (string \<times> allocation_entry) list \<times> int \<times> real \<times> real \<times> real \<Rightarrow>
   (string \<times> allocation_entry) list \<times> int \<times> real \<times> real \<times> real" where
  "greedy current_prices [] st = st"
| "greedy current_prices (m # rest) (allocation', remaining_power, total_profit', total_revenue', total_cost') =
     (if profit_per_watt m \<le> 0 then
        greedy current_prices rest (allocation', remaining_power, total_profit', total_revenue', total_cost')
      else
        let max_units = remaining_power div power m in
        if max_units > 0 then
          let e = \<lparr>units = max_units, entry_type = mtype m, entry_subtype = subtype m,
                   power_used = max_units * power m,
                   profit = real_of_int (max_units * power m) * profit_per_watt m,
                   revenue = real_of_int (max_units * power m) * revenue_per_watt m,
                   cost = real_of_int (max_units * power m) * energy_price current_prices\<rparr>
          in greedy current_prices rest
               (AList.update (alloc_key m) e allocation',
                remaining_power - max_units * power m,
                total_profit' + profit e,
                total_revenue' + revenue e,
                total_cost' + cost e)
        else
          greedy current_prices rest (allocation', remaining_power, total_profit', total_revenue', total_cost'))"

text \<open>
  \<^verbatim>\<open>find_optimal_allocation(self, current_prices)\<close> with the prices given (the
  \<^verbatim>\<open>None\<close> default fetches them from the database or the network). \<open>now\<close> is what
  \<^verbatim>\<open>datetime.now().isoformat()\<close> returns at the call.
\<close>

definition find_optimal_allocation ::
  "analyzer \<Rightarrow> price_snapshot \<Rightarrow> string \<Rightarrow> error + allocation_plan" where
  "find_optimal_allocation self current_prices now =
     (case machine_efficiency self current_prices of
        Inl e \<Rightarrow> Inl e
      | Inr ms \<Rightarrow>
          (case greedy current_prices (sort_desc ms) ([], site_power_limit self, 0, 0, 0) of
             (allocation', remaining_power, total_profit', total_revenue', total_cost') \<Rightarrow>
               (case roi_expression total_profit' total_cost' of
                  Inl e \<Rightarrow> Inl e
                | Inr roi \<Rightarrow>
                    Inr \<lparr>total_profit = total_profit',
                         total_revenue = total_revenue',
                         total_cost = total_cost',
                         roi_percentage = roi,
                         allocation = allocation',
                         total_power_used = site_power_limit self - remaining_power,
                         prices = current_prices,
                         timestamp = now\<rparr>)))"

section \<open>The single-category baselines\<close>

text \<open>
  The selection loop of \<^verbatim>\<open>_mining_only_strategy\<close>. \<^verbatim>\<open>best_profit_per_watt\<close> starts
  at \<^verbatim>\<open>-float('inf')\<close>, which is \<open>None\<close> here: every number is greater.
\<close>

fun best_miner_loop ::
  "price_snapshot \<Rightarrow> (string \<times> miner_specs) list \<Rightarrow>
   (string \<times> miner_specs) option \<times> real option \<Rightarrow>
   error + (string \<times> miner_specs) option \<times> real option" where
  "best_miner_loop prices' [] st = Inr st"
| "best_miner_loop prices' ((miner_type, specs) # rest) (best_miner, best_profit_per_watt) =
     (if miner_power specs = 0 then Inl ZeroDivisionError
      else
        let revenue_per_watt' =
              (hashrate specs * hash_price prices') / real_of_int (miner_power specs);
            profit_per_watt' = revenue_per_watt' - energy_price prices'
        in if (case best_profit_per_watt of None \<Rightarrow> True | Some b \<Rightarrow> profit_per_watt' > b)
           then best_miner_loop prices' rest (Some (miner_type, specs), Some profit_per_watt')
           else best_miner_loop prices' rest (best_miner, best_profit_per_watt))"

definition zero_totals :: totals where
  "zero_totals = \<lparr>total_profit = 0, total_revenue = 0, total_cost = 0, roi_percentage = 0\<rparr>"

definition mining_only_strategy :: "analyzer \<Rightarrow> price_snapshot \<Rightarrow> error + totals" where
  "mining_only_strategy self prices' =
     (case best_miner_loop prices' (miners (inventory self)) (None, None) of
        Inl e \<Rightarrow> Inl e
      | Inr (None, _) \<Rightarrow> Inr zero_totals
      | Inr (Some best_miner, _) \<Rightarrow>
          let units' = site_power_limit self div miner_power (snd best_miner);
              total_power = units' * miner_power (snd best_miner);
              total_revenue' = real_of_int units' * hashrate (snd best_miner) * hash_price prices';
              total_cost' = real_of_int total_power * energy_price prices'
          in (case roi_expression (total_revenue' - total_cost') total_cost' of
                Inl e \<Rightarrow> Inl e
              | Inr roi \<Rightarrow>
                  Inr \<lparr>total_profit = total_revenue' - total_cost',
                       total_revenue = total_revenue',
                       total_cost = total_cost',
                       roi_percentage = roi\<rparr>))"

fun best_compute_loop ::
  "price_snapshot \<Rightarrow> (string \<times> inference_specs) list \<Rightarrow>
   (string \<times> inference_specs) option \<times> real option \<Rightarrow>
   error + (string \<times> inference_specs) option \<times> real option" where
  "best_compute_loop prices' [] st = Inr st"
| "best_compute_loop prices' ((compute_type, specs) # rest) (best_compute, best_profit_per_watt) =
     (if inference_power specs = 0 then Inl ZeroDivisionError
      else
        let revenue_per_watt' =
              (tokens specs * token_price prices') / real_of_int (inference_power specs);
            profit_per_watt' = revenue_per_watt' - energy_price prices'
        in if (case best_profit_per_watt of None \<Rightarrow> True | Some b \<Rightarrow> profit_per_watt' > b)
           then best_compute_loop prices' rest (Some (compute_type, specs), Some profit_per_watt')
           else best_compute_loop prices' rest (best_compute, best_profit_per_watt))"

definition inference_only_strategy :: "analyzer \<Rightarrow> price_snapshot \<Rightarrow> error + totals" where
  "inference_only_strategy self prices' =
     (case best_compute_loop prices' (inference (inventory self)) (None, None) of
        Inl e \<Rightarrow> Inl e
      | Inr (None, _) \<Rightarrow> Inr zero_totals
      | Inr (Some best_compute, _) \<Rightarrow>
          let units' = site_power_limit self div inference_power (snd best_compute);
              total_power = units' * inference_power (snd best_compute);
              total_revenue' = real_of_int units' * tokens (snd best_compute) * token_price prices';
              total_cost' = real_of_int total_power * energy_price prices'
          in (case roi_expression (total_revenue' - total_cost') total_cost' of
                Inl e \<Rightarrow> Inl e
              | Inr roi \<Rightarrow>
                  Inr \<lparr>total_profit = total_revenue' - total_cost',
                       total_revenue = total_revenue',
                       total_cost = total_cost',
                       roi_percentage = roi\<rparr>))"

section \<open>\<^verbatim>\<open>simulate_strategy\<close>\<close>

text \<open>A row of the \<^verbatim>\<open>pricing\<close> table, as the loop reads it.\<close>

record pricing_row = price_snapshot +
  row_timestamp :: string

text \<open>
  What the database part of \<^verbatim>\<open>simulate_strategy\<close> ends with: the table is missing,
  an exception was caught, or the query gave a data frame (rows ordered by
  \<^verbatim>\<open>collected_at\<close>).
\<close>

datatype query_result = NoPricingTable | QueryFailed | DataFrame "pricing_row list"

record strategy_run_record =
  rr_timestamp :: string
  rr_profit :: real
  rr_revenue :: real
  rr_cost :: real
  rr_roi :: real

text \<open>The \<^verbatim>\<open>prices\<close> dictionary that the loop builds from a row.\<close>

definition row_prices :: "pricing_row \<Rightarrow> price_snapshot" where
  "row_prices row =
     \<lparr>energy_price = energy_price row, hash_price = hash_price row,
      token_price = token_price row\<rparr>"

text \<open>
  The \<^verbatim>\<open>if strategy == 'optimal': .. elif .. elif ..\<close> chain of the loop body, with
  the totals of the result that the loop reads afterwards. There is no \<^verbatim>\<open>else\<close>: a
  strategy name that is none of the three leaves \<^verbatim>\<open>result\<close> unbound at its first
  use.
\<close>

definition strategy_result ::
  "analyzer \<Rightarrow> string \<Rightarrow> string \<Rightarrow> price_snapshot \<Rightarrow> error + totals" where
  "strategy_result self now strategy prices' =
     (if strategy = ''optimal'' then
        map_sum id totals.truncate (find_optimal_allocation self prices' now)
      else if strategy = ''mining_only'' then mining_only_strategy self prices'
      else if strategy = ''inference_only'' then inference_only_strategy self prices'
      else Inl UnboundLocalError)"

text \<open>
  The loop \<^verbatim>\<open>for _, row in df.iterrows()\<close>, appending one record per row. \<open>clock i\<close>
  is the clock reading during the iteration of index \<open>i\<close>.
\<close>

fun simulate_rows ::
  "analyzer \<Rightarrow> (nat \<Rightarrow> string) \<Rightarrow> string \<Rightarrow> nat \<Rightarrow> pricing_row list \<Rightarrow>
   error + strategy_run_record list" where
  "simulate_rows self clock strategy i [] = Inr []"
| "simulate_rows self clock strategy i (row # rest) =
     (case strategy_result self (clock i) strategy (row_prices row) of
        Inl e \<Rightarrow> Inl e
      | Inr r \<Rightarrow>
          (case simulate_rows self clock strategy (Suc i) rest of
             Inl e \<Rightarrow> Inl e
           | Inr rs \<Rightarrow>
               Inr (\<lparr>rr_timestamp = row_timestamp row, rr_profit = total_profit r,
                     rr_revenue = total_revenue r, rr_cost = total_cost r,
                     rr_roi = roi_percentage r\<rparr> # rs)))"

text \<open>\<^verbatim>\<open>simulate_strategy\<close>: \<open>None\<close> is Python's \<^verbatim>\<open>None\<close>, returned when the table is
  missing, the query failed or the data frame is empty.\<close>

definition simulate_strategy ::
  "analyzer \<Rightarrow> (nat \<Rightarrow> string) \<Rightarrow> string \<Rightarrow> query_result \<Rightarrow>
   error + strategy_run_record list option" where
  "simulate_strategy self clock strategy q =
     (case q of
        NoPricingTable \<Rightarrow> Inr None
      | QueryFailed \<Rightarrow> Inr None
      | DataFrame df \<Rightarrow>
          if df = [] then Inr None
          else map_sum id Some (simulate_rows self clock strategy 0 df))"

section \<open>Well-formed inputs\<close>

text \<open>The keys of each of the two inventory dictionaries are distinct.\<close>

definition dict_keys_ok :: "inventory \<Rightarrow> bool" where
  "dict_keys_ok catalog \<longleftrightarrow>
     distinct (map fst (miners catalog)) \<and> distinct (map fst (inference catalog))"

text \<open>The catalog invariant of the specification: every entry draws positive power.\<close>

definition valid_catalog :: "inventory \<Rightarrow> bool" where
  "valid_catalog catalog \<longleftrightarrow>
     list_all (\<lambda>x. 0 < miner_power (snd x)) (miners catalog) \<and>
     list_all (\<lambda>x. 0 < inference_power (snd x)) (inference catalog)"



text \<open>The profit per watt of one catalog entry at given prices, as all three strategies
  compute it: \<^verbatim>\<open>specs['hashrate'] * prices['hash_price'] / specs['power'] -
  prices['energy_price']\<close> for a miner, with \<^verbatim>\<open>tokens\<close> and \<^verbatim>\<open>token_price\<close> for
  inference.\<close>

definition miner_ppw :: "price_snapshot \<Rightarrow> miner_specs \<Rightarrow> real" where
  "miner_ppw prices' specs =
     (hashrate specs * hash_price prices') / real_of_int (miner_power specs) - energy_price prices'"

definition compute_ppw :: "price_snapshot \<Rightarrow> inference_specs \<Rightarrow> real" where
  "compute_ppw prices' specs =
     (tokens specs * token_price prices') / real_of_int (inference_power specs) -
     energy_price prices'"

section \<open>The mining-only baseline with the infinities of a double\<close>











section \<open>The built-in defaults\<close>

text \<open>The inventory that \<^verbatim>\<open>load_inventory\<close> falls back to, the prices that
  \<^verbatim>\<open>get_latest_prices\<close> falls back to, and the power limit set by \<^verbatim>\<open>__init__\<close>.\<close>

definition default_inventory :: inventory where
  "default_inventory =
     \<lparr>miners = [(''air'', \<lparr>miner_power = 3500, hashrate = 1000\<rparr>),
                (''hydro'', \<lparr>miner_power = 5000, hashrate = 5000\<rparr>),
                (''immersion'', \<lparr>miner_power = 10000, hashrate = 10000\<rparr>)],
      inference = [(''gpu'', \<lparr>inference_power = 5000, tokens = 1000\<rparr>),
                   (''asic'', \<lparr>inference_power = 15000, tokens = 50000\<rparr>)]\<rparr>"

definition default_prices :: price_snapshot where
  "default_prices = \<lparr>energy_price = 65 / 100, hash_price = 85 / 10, token_price = 3\<rparr>"

definition default_analyzer :: analyzer where
  "default_analyzer = \<lparr>inventory = default_inventory, site_power_limit = 1000000\<rparr>"

section \<open>The greedy loop\<close>

lemma roi_expression_value:
  "roi_expression tp tc = Inr (if tc > 0 then tp / tc * 100 else 0)"
  by (simp add: roi_expression_def py_truediv_def)

text \<open>The three strategies with the value of the guarded division filled in.\<close>

lemma find_optimal_allocation_eq:
  "find_optimal_allocation self current_prices now =
     (case machine_efficiency self current_prices of
        Inl e \<Rightarrow> Inl e
      | Inr ms \<Rightarrow>
          (case greedy current_prices (sort_desc ms) ([], site_power_limit self, 0, 0, 0) of
             (allocation', remaining_power, total_profit', total_revenue', total_cost') \<Rightarrow>
               Inr \<lparr>total_profit = total_profit',
                    total_revenue = total_revenue',
                    total_cost = total_cost',
                    roi_percentage =
                      (if total_cost' > 0 then total_profit' / total_cost' * 100 else 0),
                    allocation = allocation',
                    total_power_used = site_power_limit self - remaining_power,
                    prices = current_prices,
                    timestamp = now\<rparr>))"
  by (simp add: find_optimal_allocation_def roi_expression_value split: sum.splits prod.splits)

lemma mining_only_strategy_eq:
  "mining_only_strategy self prices' =
     (case best_miner_loop prices' (miners (inventory self)) (None, None) of
        Inl e \<Rightarrow> Inl e
      | Inr (None, _) \<Rightarrow> Inr zero_totals
      | Inr (Some best_miner, _) \<Rightarrow>
          let units' = site_power_limit self div miner_power (snd best_miner);
              total_power = units' * miner_power (snd best_miner);
              total_revenue' = real_of_int units' * hashrate (snd best_miner) * hash_price prices';
              total_cost' = real_of_int total_power * energy_price prices'
          in Inr \<lparr>total_profit = total_revenue' - total_cost',
                  total_revenue = total_revenue',
                  total_cost = total_cost',
                  roi_percentage =
                    (if total_cost' > 0
                     then (total_revenue' - total_cost') / total_cost' * 100 else 0)\<rparr>)"
  by (simp add: mining_only_strategy_def roi_expression_value Let_def
      split: sum.splits prod.splits option.splits)

lemma inference_only_strategy_eq:
  "inference_only_strategy self prices' =
     (case best_compute_loop prices' (inference (inventory self)) (None, None) of
        Inl e \<Rightarrow> Inl e
      | Inr (None, _) \<Rightarrow> Inr zero_totals
      | Inr (Some best_compute, _) \<Rightarrow>
          let units' = site_power_limit self div inference_power (snd best_compute);
              total_power = units' * inference_power (snd best_compute);
              total_revenue' = real_of_int units' * tokens (snd best_compute) * token_price prices';
              total_cost' = real_of_int total_power * energy_price prices'
          in Inr \<lparr>total_profit = total_revenue' - total_cost',
                  total_revenue = total_revenue',
                  total_cost = total_cost',
                  roi_percentage =
                    (if total_cost' > 0
                     then (total_revenue' - total_cost') / total_cost' * 100 else 0)\<rparr>)"
  by (simp add: inference_only_strategy_def roi_expression_value Let_def
      split: sum.splits prod.splits option.splits)

lemma update_fresh: "k \<notin> fst ` set al \<Longrightarrow> AList.update k v al = al @ [(k, v)]"
  by (induction al) auto

lemma set_update_subset: "set (AList.update k v al) \<subseteq> insert (k, v) (set al)"
  by (induction al) auto

lemma greedy_skip:
  "profit_per_watt m \<le> 0 \<or> \<not> 0 < r div power m \<Longrightarrow>
   greedy p (m # ms) (al, r, tp, tr, tc) = greedy p ms (al, r, tp, tr, tc)"
  by (auto simp: Let_def)

lemma greedy_take:
  "\<not> (profit_per_watt m \<le> 0 \<or> \<not> 0 < r div power m) \<Longrightarrow>
   greedy p (m # ms) (al, r, tp, tr, tc) =
   greedy p ms
     (AList.update (alloc_key m)
        \<lparr>units = r div power m, entry_type = mtype m, entry_subtype = subtype m,
         power_used = r div power m * power m,
         profit = real_of_int (r div power m * power m) * profit_per_watt m,
         revenue = real_of_int (r div power m * power m) * revenue_per_watt m,
         cost = real_of_int (r div power m * power m) * energy_price p\<rparr> al,
      r - r div power m * power m,
      tp + real_of_int (r div power m * power m) * profit_per_watt m,
      tr + real_of_int (r div power m * power m) * revenue_per_watt m,
      tc + real_of_int (r div power m * power m) * energy_price p)"
  by (simp add: Let_def)

lemma greedy_remaining:
  "\<forall>m\<in>set ms. 0 < power m \<Longrightarrow>
   greedy p ms (al, r, tp, tr, tc) = (al', r', tp', tr', tc') \<Longrightarrow>
   r' \<le> r \<and> (0 \<le> r \<longrightarrow> 0 \<le> r')"
proof (induction ms arbitrary: al r tp tr tc)
  case Nil
  then show ?case by simp
next
  case (Cons m ms)
  have pw: "0 < power m" using Cons.prems(1) by simp
  have rest: "\<forall>m\<in>set ms. 0 < power m" using Cons.prems(1) by simp
  show ?case
  proof (cases "profit_per_watt m \<le> 0 \<or> \<not> 0 < r div power m")
    case True
    from Cons.prems(2) have "greedy p ms (al, r, tp, tr, tc) = (al', r', tp', tr', tc')"
      unfolding greedy_skip [OF True] .
    then show ?thesis using Cons.IH [OF rest] by blast
  next
    case False
    from Cons.prems(2) have a: "r' \<le> r - r div power m * power m"
      and b: "0 \<le> r - r div power m * power m \<longrightarrow> 0 \<le> r'"
      unfolding greedy_take [OF False] using Cons.IH [OF rest] by blast+
    have m: "r - r div power m * power m = r mod power m"
      by (simp add: minus_div_mult_eq_mod)
    have d: "0 < r div power m" using False by simp
    have "0 \<le> r div power m * power m" using d pw by simp
    moreover have "0 \<le> r mod power m" using pw by simp
    ultimately show ?thesis using a b m by linarith
  qed
qed

lemma greedy_leftover:
  "\<forall>m\<in>set ms. 0 < power m \<Longrightarrow>
   greedy p ms (al, r, tp, tr, tc) = (al', r', tp', tr', tc') \<Longrightarrow>
   \<forall>m\<in>set ms. 0 < profit_per_watt m \<longrightarrow> r' < power m"
proof (induction ms arbitrary: al r tp tr tc)
  case Nil
  then show ?case by simp
next
  case (Cons m ms)
  have pw: "0 < power m" using Cons.prems(1) by simp
  have rest: "\<forall>m\<in>set ms. 0 < power m" using Cons.prems(1) by simp
  show ?case
  proof (cases "profit_per_watt m \<le> 0 \<or> \<not> 0 < r div power m")
    case True
    from Cons.prems(2) have g: "greedy p ms (al, r, tp, tr, tc) = (al', r', tp', tr', tc')"
      unfolding greedy_skip [OF True] .
    have tl: "\<forall>m\<in>set ms. 0 < profit_per_watt m \<longrightarrow> r' < power m"
      using Cons.IH [OF rest g] .
    have "r' < power m" if prof: "0 < profit_per_watt m"
    proof -
      have "r div power m \<le> 0" using True prof by simp
      then have "r < power m" using pw pos_imp_zdiv_pos_iff [of "power m" r]
        by linarith
      moreover have "r' \<le> r" using greedy_remaining [OF rest g] by simp
      ultimately show ?thesis by simp
    qed
    with tl show ?thesis by simp
  next
    case False
    from Cons.prems(2) have g: "greedy p ms
     (AList.update (alloc_key m)
        \<lparr>units = r div power m, entry_type = mtype m, entry_subtype = subtype m,
         power_used = r div power m * power m,
         profit = real_of_int (r div power m * power m) * profit_per_watt m,
         revenue = real_of_int (r div power m * power m) * revenue_per_watt m,
         cost = real_of_int (r div power m * power m) * energy_price p\<rparr> al,
      r - r div power m * power m,
      tp + real_of_int (r div power m * power m) * profit_per_watt m,
      tr + real_of_int (r div power m * power m) * revenue_per_watt m,
      tc + real_of_int (r div power m * power m) * energy_price p) = (al', r', tp', tr', tc')"
      unfolding greedy_take [OF False] .
    have "r' \<le> r - r div power m * power m"
      using greedy_remaining [OF rest g] by simp
    also have "\<dots> = r mod power m" by (simp add: minus_div_mult_eq_mod)
    also have "\<dots> < power m" using pw by simp
    finally have "r' < power m" .
    with Cons.IH [OF rest g] show ?thesis by simp
  qed
qed

lemma greedy_power_sum:
  "distinct (map alloc_key ms) \<Longrightarrow> alloc_key ` set ms \<inter> fst ` set al = {} \<Longrightarrow>
   greedy p ms (al, r, tp, tr, tc) = (al', r', tp', tr', tc') \<Longrightarrow>
   (\<Sum>ke\<leftarrow>al'. power_used (snd ke)) = (\<Sum>ke\<leftarrow>al. power_used (snd ke)) + (r - r')"
proof (induction ms arbitrary: al r tp tr tc)
  case Nil
  then show ?case by simp
next
  case (Cons m ms)
  have dist: "distinct (map alloc_key ms)" using Cons.prems(1) by simp
  have fresh: "alloc_key m \<notin> fst ` set al" using Cons.prems(2) by auto
  have disj: "alloc_key ` set ms \<inter> fst ` set al = {}" using Cons.prems(2) by auto
  show ?case
  proof (cases "profit_per_watt m \<le> 0 \<or> \<not> 0 < r div power m")
    case True
    from Cons.prems(3) have "greedy p ms (al, r, tp, tr, tc) = (al', r', tp', tr', tc')"
      unfolding greedy_skip [OF True] .
    then show ?thesis using Cons.IH [OF dist disj] by blast
  next
    case False
    define e where "e = \<lparr>units = r div power m, entry_type = mtype m, entry_subtype = subtype m,
         power_used = r div power m * power m,
         profit = real_of_int (r div power m * power m) * profit_per_watt m,
         revenue = real_of_int (r div power m * power m) * revenue_per_watt m,
         cost = real_of_int (r div power m * power m) * energy_price p\<rparr>"
    have pu: "power_used e = r div power m * power m" by (simp add: e_def)
    from Cons.prems(3) have g: "greedy p ms
     (AList.update (alloc_key m) e al,
      r - r div power m * power m,
      tp + real_of_int (r div power m * power m) * profit_per_watt m,
      tr + real_of_int (r div power m * power m) * revenue_per_watt m,
      tc + real_of_int (r div power m * power m) * energy_price p) = (al', r', tp', tr', tc')"
      unfolding greedy_take [OF False] e_def .
    have upd: "AList.update (alloc_key m) e al = al @ [(alloc_key m, e)]"
      using fresh by (rule update_fresh)
    have "alloc_key m \<notin> alloc_key ` set ms" using Cons.prems(1) by simp
    then have disj': "alloc_key ` set ms \<inter> fst ` set (AList.update (alloc_key m) e al) = {}"
      using disj by (auto simp: dom_update)
    from Cons.IH [OF dist disj' g] show ?thesis
      by (simp add: upd pu)
  qed
qed

lemma greedy_entries:
  "greedy p ms (al, r, tp, tr, tc) = (al', r', tp', tr', tc') \<Longrightarrow> (k, e) \<in> set al' \<Longrightarrow>
   (k, e) \<in> set al \<or>
   (\<exists>m\<in>set ms. k = alloc_key m \<and> entry_type e = mtype m \<and> entry_subtype e = subtype m \<and>
                0 < profit_per_watt m \<and> 0 < units e \<and> power_used e = units e * power m)"
proof (induction ms arbitrary: al r tp tr tc)
  case Nil
  then show ?case by simp
next
  case (Cons m ms)
  show ?case
  proof (cases "profit_per_watt m \<le> 0 \<or> \<not> 0 < r div power m")
    case True
    from Cons.prems(1) have "greedy p ms (al, r, tp, tr, tc) = (al', r', tp', tr', tc')"
      unfolding greedy_skip [OF True] .
    from Cons.IH [OF this Cons.prems(2)] show ?thesis by auto
  next
    case False
    define e0 where "e0 = \<lparr>units = r div power m, entry_type = mtype m, entry_subtype = subtype m,
         power_used = r div power m * power m,
         profit = real_of_int (r div power m * power m) * profit_per_watt m,
         revenue = real_of_int (r div power m * power m) * revenue_per_watt m,
         cost = real_of_int (r div power m * power m) * energy_price p\<rparr>"
    have e0: "entry_type e0 = mtype m" "entry_subtype e0 = subtype m" "0 < units e0"
          "power_used e0 = units e0 * power m"
      using False by (simp_all add: e0_def)
    from Cons.prems(1) have g: "greedy p ms
     (AList.update (alloc_key m) e0 al,
      r - r div power m * power m,
      tp + real_of_int (r div power m * power m) * profit_per_watt m,
      tr + real_of_int (r div power m * power m) * revenue_per_watt m,
      tc + real_of_int (r div power m * power m) * energy_price p) = (al', r', tp', tr', tc')"
      unfolding greedy_take [OF False] e0_def .
    from Cons.IH [OF g Cons.prems(2)]
    consider "(k, e) \<in> set (AList.update (alloc_key m) e0 al)"
      | "\<exists>m\<in>set ms. k = alloc_key m \<and> entry_type e = mtype m \<and> entry_subtype e = subtype m \<and>
                0 < profit_per_watt m \<and> 0 < units e \<and> power_used e = units e * power m"
      by blast
    then show ?thesis
    proof cases
      case 1
      then have "(k, e) = (alloc_key m, e0) \<or> (k, e) \<in> set al"
        using set_update_subset [of "alloc_key m" e0 al] by auto
      then show ?thesis using e0 False by auto
    next
      case 2
      then show ?thesis by auto
    qed
  qed
qed

lemma greedy_profit_mono:
  "\<forall>m\<in>set ms. 0 < power m \<Longrightarrow>
   greedy p ms (al, r, tp, tr, tc) = (al', r', tp', tr', tc') \<Longrightarrow> tp \<le> tp'"
proof (induction ms arbitrary: al r tp tr tc)
  case Nil
  then show ?case by simp
next
  case (Cons m ms)
  have pw: "0 < power m" using Cons.prems(1) by simp
  have rest: "\<forall>m\<in>set ms. 0 < power m" using Cons.prems(1) by simp
  show ?case
  proof (cases "profit_per_watt m \<le> 0 \<or> \<not> 0 < r div power m")
    case True
    from Cons.prems(2) have "greedy p ms (al, r, tp, tr, tc) = (al', r', tp', tr', tc')"
      unfolding greedy_skip [OF True] .
    then show ?thesis using Cons.IH [OF rest] by blast
  next
    case False
    from Cons.prems(2)
    have g: "tp + real_of_int (r div power m * power m) * profit_per_watt m \<le> tp'"
      unfolding greedy_take [OF False] using Cons.IH [OF rest] by blast
    have "0 \<le> r div power m * power m" using False pw by simp
    then have "0 \<le> real_of_int (r div power m * power m)"
      by (simp only: of_int_0_le_iff)
    then have "0 \<le> real_of_int (r div power m * power m) * profit_per_watt m"
      using False by (intro mult_nonneg_nonneg) auto
    with g show ?thesis by linarith
  qed
qed

lemma greedy_unprofitable:
  "\<forall>m\<in>set ms. profit_per_watt m \<le> 0 \<Longrightarrow> greedy p ms st = st"
proof (induction ms)
  case Nil
  then show ?case by simp
next
  case (Cons m ms)
  obtain al r tp tr tc where st: "st = (al, r, tp, tr, tc)" by (cases st) auto
  have "greedy p (m # ms) st = greedy p ms st"
    unfolding st using Cons.prems by (intro greedy_skip) simp
  then show ?case using Cons by simp
qed


section \<open>The efficiency list and the allocation keys\<close>

lemma analyze_miners_Inl:
  "analyze_miners p xs = Inl e \<longleftrightarrow> e = ZeroDivisionError \<and> (\<exists>x\<in>set xs. miner_power (snd x) = 0)"
  by (induction xs) (auto simp: Let_def split: sum.splits if_splits)

lemma analyze_inference_Inl:
  "analyze_inference p xs = Inl e \<longleftrightarrow> e = ZeroDivisionError \<and> (\<exists>x\<in>set xs. inference_power (snd x) = 0)"
  by (induction xs) (auto simp: Let_def split: sum.splits if_splits)

lemma analyze_miners_Inr:
  "analyze_miners p xs = Inr ms \<Longrightarrow>
   map subtype ms = map fst xs \<and> map power ms = map (\<lambda>x. miner_power (snd x)) xs \<and>
   (\<forall>m\<in>set ms. mtype m = ''miner'')"
  by (induction xs arbitrary: ms) (auto simp: Let_def split: sum.splits if_splits)

lemma analyze_inference_Inr:
  "analyze_inference p xs = Inr ms \<Longrightarrow>
   map subtype ms = map fst xs \<and> map power ms = map (\<lambda>x. inference_power (snd x)) xs \<and>
   (\<forall>m\<in>set ms. mtype m = ''inference'')"
  by (induction xs arbitrary: ms) (auto simp: Let_def split: sum.splits if_splits)

lemma machine_efficiency_Inl:
  "machine_efficiency self p = Inl e \<longleftrightarrow>
   e = ZeroDivisionError \<and>
   ((\<exists>x\<in>set (miners (inventory self)). miner_power (snd x) = 0) \<or>
    (\<exists>x\<in>set (inference (inventory self)). inference_power (snd x) = 0))"
proof (cases "analyze_miners p (miners (inventory self))")
  case (Inl a)
  then show ?thesis
    using analyze_miners_Inl [of p "miners (inventory self)" a]
    by (auto simp: machine_efficiency_def)
next
  case (Inr ms)
  then have nz: "\<not> (\<exists>x\<in>set (miners (inventory self)). miner_power (snd x) = 0)"
    using analyze_miners_Inl [of p "miners (inventory self)" ZeroDivisionError] by auto
  show ?thesis
  proof (cases "analyze_inference p (inference (inventory self))")
    case (Inl a)
    then show ?thesis
      using Inr analyze_inference_Inl [of p "inference (inventory self)" a]
      by (auto simp: machine_efficiency_def)
  next
    case Inr2: (Inr cs)
    then have "\<not> (\<exists>x\<in>set (inference (inventory self)). inference_power (snd x) = 0)"
      using analyze_inference_Inl [of p "inference (inventory self)" ZeroDivisionError] by auto
    then show ?thesis using Inr Inr2 nz by (auto simp: machine_efficiency_def)
  qed
qed

lemma machine_efficiency_powers:
  assumes "machine_efficiency self p = Inr ms"
  shows "set (map power ms) =
         (\<lambda>x. miner_power (snd x)) ` set (miners (inventory self)) \<union>
         (\<lambda>x. inference_power (snd x)) ` set (inference (inventory self))"
proof -
  from assms obtain a b where
    a: "analyze_miners p (miners (inventory self)) = Inr a" and
    b: "analyze_inference p (inference (inventory self)) = Inr b" and
    ms: "ms = a @ b"
    by (auto simp: machine_efficiency_def split: sum.splits)
  have "map power ms = map (\<lambda>x. miner_power (snd x)) (miners (inventory self)) @
        map (\<lambda>x. inference_power (snd x)) (inference (inventory self))"
    using analyze_miners_Inr [OF a] analyze_inference_Inr [OF b] ms by simp
  then show ?thesis by (metis image_set set_append)
qed

lemma alloc_key_miner_inj:
  "(k @ ''_miner'' = k' @ ''_miner'') = (k = k')"
  by simp

lemma alloc_key_cross: "k @ ''_miner'' \<noteq> k' @ ''_inference''"
proof
  assume "k @ ''_miner'' = k' @ ''_inference''"
  then have "last (k @ ''_miner'') = last (k' @ ''_inference'')" by simp
  then show False by simp
qed

lemma machine_efficiency_keys:
  assumes "machine_efficiency self p = Inr ms"
    and "distinct (map fst (miners (inventory self)))"
    and "distinct (map fst (inference (inventory self)))"
  shows "distinct (map alloc_key ms)"
proof -
  from assms(1) obtain a b where
    a: "analyze_miners p (miners (inventory self)) = Inr a" and
    b: "analyze_inference p (inference (inventory self)) = Inr b" and
    ms: "ms = a @ b"
    by (auto simp: machine_efficiency_def split: sum.splits)
  have "\<forall>m\<in>set a. alloc_key m = subtype m @ ''_miner''"
    using analyze_miners_Inr [OF a] by (simp add: alloc_key_def)
  then have ka: "map alloc_key a = map (\<lambda>k. k @ ''_miner'') (map subtype a)"
    by (simp add: comp_def)
  have "\<forall>m\<in>set b. alloc_key m = subtype m @ ''_inference''"
    using analyze_inference_Inr [OF b] by (simp add: alloc_key_def)
  then have kb: "map alloc_key b = map (\<lambda>k. k @ ''_inference'') (map subtype b)"
    by (simp add: comp_def)
  have da: "distinct (map alloc_key a)"
    unfolding ka using analyze_miners_Inr [OF a] assms(2)
    by (simp add: distinct_map inj_on_def)
  have db: "distinct (map alloc_key b)"
    unfolding kb using analyze_inference_Inr [OF b] assms(3)
    by (simp add: distinct_map inj_on_def)
  have "set (map alloc_key a) \<inter> set (map alloc_key b) = {}"
    unfolding ka kb using alloc_key_cross by auto
  with da db show ?thesis unfolding ms by simp
qed

lemma sort_desc_set: "set (sort_desc ms) = set ms"
  by (simp add: sort_desc_def)

lemma sort_desc_distinct_keys:
  "distinct (map alloc_key ms) \<Longrightarrow> distinct (map alloc_key (sort_desc ms))"
proof -
  assume d: "distinct (map alloc_key ms)"
  have "mset (map alloc_key (sort_desc ms)) = mset (map alloc_key ms)"
    by (simp add: sort_desc_def)
  then show ?thesis using d by (metis mset_eq_imp_distinct_iff)
qed

section \<open>The result of the optimizer\<close>

lemma find_optimal_allocation_Inr:
  assumes "find_optimal_allocation self p now = Inr plan"
  obtains ms al r tp tr tc where
    "machine_efficiency self p = Inr ms"
    "greedy p (sort_desc ms) ([], site_power_limit self, 0, 0, 0) = (al, r, tp, tr, tc)"
    "allocation plan = al" "total_power_used plan = site_power_limit self - r"
    "total_profit plan = tp" "total_revenue plan = tr" "total_cost plan = tc"
    "roi_percentage plan = (if tc > 0 then tp / tc * 100 else 0)"
    "timestamp plan = now" "prices plan = p"
proof -
  from assms obtain ms where ms: "machine_efficiency self p = Inr ms"
    by (auto simp: find_optimal_allocation_eq split: sum.splits)
  obtain al r tp tr tc where
    g: "greedy p (sort_desc ms) ([], site_power_limit self, 0, 0, 0) = (al, r, tp, tr, tc)"
    by (rule prod_cases5)
  from assms have "plan = \<lparr>total_profit = tp, total_revenue = tr, total_cost = tc,
      roi_percentage = (if tc > 0 then tp / tc * 100 else 0),
      allocation = al, total_power_used = site_power_limit self - r,
      prices = p, timestamp = now\<rparr>"
    by (simp add: find_optimal_allocation_eq ms g)
  then show thesis using ms g by (intro that [of ms al r tp tr tc]) simp_all
qed

lemma find_optimal_allocation_returns:
  assumes "machine_efficiency self p = Inr ms"
  shows "\<exists>plan. find_optimal_allocation self p now = Inr plan"
  using assms by (simp add: find_optimal_allocation_eq split: prod.splits)

lemma valid_catalog_efficiency:
  assumes "valid_catalog (inventory self)"
  obtains ms where "machine_efficiency self p = Inr ms" "\<forall>m\<in>set ms. 0 < power m"
proof -
  have nz: "\<not> ((\<exists>x\<in>set (miners (inventory self)). miner_power (snd x) = 0) \<or>
    (\<exists>x\<in>set (inference (inventory self)). inference_power (snd x) = 0))"
    using assms by (auto simp: valid_catalog_def list_all_iff)
  then obtain ms where ms: "machine_efficiency self p = Inr ms"
    using machine_efficiency_Inl [of self p] by (cases "machine_efficiency self p") auto
  have "\<forall>w\<in>set (map power ms). 0 < w"
    unfolding machine_efficiency_powers [OF ms]
    using assms by (auto simp: valid_catalog_def list_all_iff)
  then have "\<forall>m\<in>set ms. 0 < power m" by simp
  with ms show thesis by (rule that)
qed

lemma default_plan:
  "find_optimal_allocation default_analyzer default_prices now =
   Inr \<lparr>total_profit = 9335000, total_revenue = 9985000, total_cost = 650000,
        roi_percentage = 93350 / 65,
        allocation =
          [(''asic_inference'',
            \<lparr>units = 66, entry_type = ''inference'', entry_subtype = ''asic'',
             power_used = 990000, profit = 9256500, revenue = 9900000, cost = 643500\<rparr>),
           (''hydro_miner'',
            \<lparr>units = 2, entry_type = ''miner'', entry_subtype = ''hydro'',
             power_used = 10000, profit = 78500, revenue = 85000, cost = 6500\<rparr>)],
        total_power_used = 1000000, prices = default_prices, timestamp = now\<rparr>"
  by (simp add: find_optimal_allocation_eq machine_efficiency_def default_analyzer_def
      default_inventory_def default_prices_def sort_desc_def alloc_key_def Let_def)

lemma default_efficiency:
  "machine_efficiency default_analyzer default_prices =
   Inr [\<lparr>mtype = ''miner'', subtype = ''air'', power = 3500,
         profit_per_watt = 8500 / 3500 - 65 / 100, revenue_per_watt = 8500 / 3500,
         capability = 1000, price_type = ''hash_price''\<rparr>,
        \<lparr>mtype = ''miner'', subtype = ''hydro'', power = 5000,
         profit_per_watt = 785 / 100, revenue_per_watt = 85 / 10,
         capability = 5000, price_type = ''hash_price''\<rparr>,
        \<lparr>mtype = ''miner'', subtype = ''immersion'', power = 10000,
         profit_per_watt = 785 / 100, revenue_per_watt = 85 / 10,
         capability = 10000, price_type = ''hash_price''\<rparr>,
        \<lparr>mtype = ''inference'', subtype = ''gpu'', power = 5000,
         profit_per_watt = - (5 / 100), revenue_per_watt = 6 / 10,
         capability = 1000, price_type = ''token_price''\<rparr>,
        \<lparr>mtype = ''inference'', subtype = ''asic'', power = 15000,
         profit_per_watt = 935 / 100, revenue_per_watt = 10,
         capability = 50000, price_type = ''token_price''\<rparr>]"
  by (simp add: machine_efficiency_def default_analyzer_def default_inventory_def
      default_prices_def Let_def)

lemma default_valid: "valid_catalog (inventory default_analyzer)"
  by (simp add: valid_catalog_def default_analyzer_def default_inventory_def)

lemma default_keys: "dict_keys_ok (inventory default_analyzer)"
  by (simp add: dict_keys_ok_def default_analyzer_def default_inventory_def)

section \<open>Claims about the optimizer\<close>

text \<open>
  \<^bold>\<open>C6\<close> (budget containment and conservation of power). For every catalog whose
  entries all have positive power, with distinct dictionary keys, every price snapshot
  and every non-negative power limit, \<open>find_optimal_allocation\<close> returns a plan, its
  \<open>total_power_used\<close> is at most the power limit, and it equals the sum of
  \<open>power_used\<close> over the entries of the plan's allocation.
\<close>

theorem budget_containment:
  assumes "valid_catalog (inventory self)" and "dict_keys_ok (inventory self)"
    and "0 \<le> site_power_limit self"
  shows "\<exists>plan. find_optimal_allocation self p now = Inr plan \<and>
           total_power_used plan \<le> site_power_limit self \<and>
           total_power_used plan = (\<Sum>ke\<leftarrow>allocation plan. power_used (snd ke))"
proof -
  obtain ms where ms: "machine_efficiency self p = Inr ms" and pw: "\<forall>m\<in>set ms. 0 < power m"
    using assms(1) by (rule valid_catalog_efficiency)
  obtain plan where plan: "find_optimal_allocation self p now = Inr plan"
    using find_optimal_allocation_returns [OF ms] by blast
  from plan obtain ms' al r tp tr tc where
    ms': "machine_efficiency self p = Inr ms'" and
    g: "greedy p (sort_desc ms') ([], site_power_limit self, 0, 0, 0) = (al, r, tp, tr, tc)" and
    al: "allocation plan = al" and used: "total_power_used plan = site_power_limit self - r"
    by (rule find_optimal_allocation_Inr)
  have eq: "ms' = ms" using ms ms' by simp
  have pw': "\<forall>m\<in>set (sort_desc ms'). 0 < power m" using pw eq by (simp add: sort_desc_set)
  have "0 \<le> r" using greedy_remaining [OF pw' g] assms(3) by simp
  then have le: "total_power_used plan \<le> site_power_limit self" using used by simp
  have "distinct (map alloc_key ms')"
    using machine_efficiency_keys [OF ms'] assms(2) by (simp add: dict_keys_ok_def)
  then have d: "distinct (map alloc_key (sort_desc ms'))" by (rule sort_desc_distinct_keys)
  have "(\<Sum>ke\<leftarrow>al. power_used (snd ke)) = site_power_limit self - r"
    using greedy_power_sum [OF d _ g] by simp
  with plan le al used show ?thesis by simp
qed

theorem budget_containment_witness:
  "valid_catalog (inventory default_analyzer) \<and> dict_keys_ok (inventory default_analyzer) \<and>
   0 \<le> site_power_limit default_analyzer \<and>
   (\<exists>plan. find_optimal_allocation default_analyzer default_prices ''2024-01-01T00:00:00'' = Inr plan \<and>
      total_power_used plan \<le> site_power_limit default_analyzer \<and>
      total_power_used plan = (\<Sum>ke\<leftarrow>allocation plan. power_used (snd ke)))"
proof -
  have l: "0 \<le> site_power_limit default_analyzer" by (simp add: default_analyzer_def)
  show ?thesis
    using budget_containment [OF default_valid default_keys l, of default_prices "''2024-01-01T00:00:00''"]
      default_valid default_keys l by simp
qed

text \<open>
  \<^bold>\<open>C7\<close> (profitability filter). Whenever \<open>find_optimal_allocation\<close> returns a plan,
  every entry of its allocation is the entry of a machine of the efficiency list (same
  key, type and subtype) whose \<open>profit_per_watt\<close> at the given prices is strictly
  positive; and, the dictionary keys being distinct, no machine with
  \<open>profit_per_watt \<le> 0\<close> has its key in the allocation.
\<close>

theorem entries_profitable:
  assumes "find_optimal_allocation self p now = Inr plan"
  shows "\<exists>ms. machine_efficiency self p = Inr ms \<and>
           (\<forall>ke\<in>set (allocation plan). \<exists>m\<in>set ms.
              fst ke = alloc_key m \<and> entry_type (snd ke) = mtype m \<and>
              entry_subtype (snd ke) = subtype m \<and> 0 < profit_per_watt m) \<and>
           (dict_keys_ok (inventory self) \<longrightarrow>
              (\<forall>m\<in>set ms. profit_per_watt m \<le> 0 \<longrightarrow> alloc_key m \<notin> fst ` set (allocation plan)))"
proof -
  from assms obtain ms al r tp tr tc where
    ms: "machine_efficiency self p = Inr ms" and
    g: "greedy p (sort_desc ms) ([], site_power_limit self, 0, 0, 0) = (al, r, tp, tr, tc)" and
    al: "allocation plan = al"
    by (rule find_optimal_allocation_Inr)
  have ent: "\<exists>m\<in>set ms. k = alloc_key m \<and> entry_type e = mtype m \<and>
               entry_subtype e = subtype m \<and> 0 < profit_per_watt m"
    if "(k, e) \<in> set al" for k e
    using greedy_entries [OF g that] by (auto simp: sort_desc_set)
  have first: "\<forall>ke\<in>set (allocation plan). \<exists>m\<in>set ms.
              fst ke = alloc_key m \<and> entry_type (snd ke) = mtype m \<and>
              entry_subtype (snd ke) = subtype m \<and> 0 < profit_per_watt m"
    unfolding al using ent by auto
  have second: "alloc_key m \<notin> fst ` set (allocation plan)"
    if ok: "dict_keys_ok (inventory self)" and m: "m \<in> set ms" and un: "profit_per_watt m \<le> 0" for m
  proof
    assume "alloc_key m \<in> fst ` set (allocation plan)"
    then obtain e where "(alloc_key m, e) \<in> set al" unfolding al by auto
    from ent [OF this] obtain m' where m': "m' \<in> set ms" "alloc_key m = alloc_key m'"
      "0 < profit_per_watt m'" by blast
    have "distinct (map alloc_key ms)"
      using machine_efficiency_keys [OF ms] ok by (simp add: dict_keys_ok_def)
    then have "inj_on alloc_key (set ms)" by (simp add: distinct_map)
    then have "m = m'" using m m' by (auto dest: inj_onD)
    with un m' show False by simp
  qed
  from ms first second show ?thesis by blast
qed

theorem entries_profitable_witness:
  "\<exists>plan. find_optimal_allocation default_analyzer default_prices ''2024-01-01T00:00:00'' = Inr plan \<and>
     (\<exists>ms. machine_efficiency default_analyzer default_prices = Inr ms \<and>
        (\<forall>ke\<in>set (allocation plan). \<exists>m\<in>set ms.
           fst ke = alloc_key m \<and> entry_type (snd ke) = mtype m \<and>
           entry_subtype (snd ke) = subtype m \<and> 0 < profit_per_watt m) \<and>
        (dict_keys_ok (inventory default_analyzer) \<longrightarrow>
           (\<forall>m\<in>set ms. profit_per_watt m \<le> 0 \<longrightarrow> alloc_key m \<notin> fst ` set (allocation plan))))"
  using entries_profitable [OF default_plan [of "''2024-01-01T00:00:00''"]] default_plan
  by blast

text \<open>
  \<^bold>\<open>C9\<close> (no loss). For every catalog whose entries all have positive power, every
  price snapshot and every power limit, \<open>find_optimal_allocation\<close> returns a plan whose
  \<open>total_profit\<close> is at least \<open>0\<close>. (The claim's further hypotheses, non-negative prices
  and a non-negative limit, are not needed.)
\<close>

theorem optimal_profit_nonneg:
  assumes "valid_catalog (inventory self)"
  shows "\<exists>plan. find_optimal_allocation self p now = Inr plan \<and> 0 \<le> total_profit plan"
proof -
  obtain ms where ms: "machine_efficiency self p = Inr ms" and pw: "\<forall>m\<in>set ms. 0 < power m"
    using assms(1) by (rule valid_catalog_efficiency)
  obtain plan where plan: "find_optimal_allocation self p now = Inr plan"
    using find_optimal_allocation_returns [OF ms] by blast
  from plan obtain ms' al r tp tr tc where
    ms': "machine_efficiency self p = Inr ms'" and
    g: "greedy p (sort_desc ms') ([], site_power_limit self, 0, 0, 0) = (al, r, tp, tr, tc)" and
    tp: "total_profit plan = tp"
    by (rule find_optimal_allocation_Inr)
  have eq: "ms' = ms" using ms ms' by simp
  have pw': "\<forall>m\<in>set (sort_desc ms'). 0 < power m" using pw eq by (simp add: sort_desc_set)
  have "0 \<le> tp" using greedy_profit_mono [OF pw' g] .
  with plan tp show ?thesis by simp
qed

theorem optimal_profit_nonneg_witness:
  "valid_catalog (inventory default_analyzer) \<and>
   (\<exists>plan. find_optimal_allocation default_analyzer default_prices ''2024-01-01T00:00:00'' = Inr plan \<and>
      0 \<le> total_profit plan)"
  using optimal_profit_nonneg [OF default_valid, of default_prices "''2024-01-01T00:00:00''"] default_valid
  by simp

text \<open>
  \<^bold>\<open>C10\<close> (greedy saturation), as stated: whenever the optimizer returns, the unused
  budget is below the power of every device with a strictly positive profit per
  watt. The code accepts a catalog entry with negative power: a miner of power \<open>-3\<close>
  and hash rate \<open>-30\<close> has profit per watt \<open>9\<close> at unit prices, no unit of it is
  bought with a budget of \<open>10\<close> (\<open>10 div -3 = -4\<close>), and the unused budget \<open>10\<close> is not
  below \<open>-3\<close>.
\<close>

theorem leftover_negative_power_counterexample:
  "machine_efficiency
     \<lparr>inventory = \<lparr>miners = [(''x'', \<lparr>miner_power = - 3, hashrate = - 30\<rparr>)], inference = []\<rparr>,
      site_power_limit = 10\<rparr>
     \<lparr>energy_price = 1, hash_price = 1, token_price = 1\<rparr> =
   Inr [\<lparr>mtype = ''miner'', subtype = ''x'', power = - 3, profit_per_watt = 9,
         revenue_per_watt = 10, capability = - 30, price_type = ''hash_price''\<rparr>] \<and>
   find_optimal_allocation
     \<lparr>inventory = \<lparr>miners = [(''x'', \<lparr>miner_power = - 3, hashrate = - 30\<rparr>)], inference = []\<rparr>,
      site_power_limit = 10\<rparr>
     \<lparr>energy_price = 1, hash_price = 1, token_price = 1\<rparr> ''2024-01-01T00:00:00'' =
   Inr \<lparr>total_profit = 0, total_revenue = 0, total_cost = 0, roi_percentage = 0,
        allocation = [], total_power_used = 0,
        prices = \<lparr>energy_price = 1, hash_price = 1, token_price = 1\<rparr>,
        timestamp = ''2024-01-01T00:00:00''\<rparr> \<and>
   \<not> (10 - 0 < (- 3 :: int))"
  by (simp add: find_optimal_allocation_eq machine_efficiency_def sort_desc_def Let_def)

text \<open>
  \<^bold>\<open>C10\<close>, amended: whenever the optimizer returns a plan for a catalog whose entries
  all have positive power (the catalog invariant), the unused budget
  \<open>site_power_limit - total_power_used\<close> is strictly less than the power of every machine
  of the efficiency list whose \<open>profit_per_watt\<close> is strictly positive. This holds for
  every price snapshot and every power limit.
\<close>

theorem leftover_fits_no_unit:
  assumes "find_optimal_allocation self p now = Inr plan"
    and "valid_catalog (inventory self)"
  shows "\<exists>ms. machine_efficiency self p = Inr ms \<and>
           (\<forall>m\<in>set ms. 0 < profit_per_watt m \<longrightarrow>
              site_power_limit self - total_power_used plan < power m)"
proof -
  obtain ms0 where ms0: "machine_efficiency self p = Inr ms0" and pw: "\<forall>m\<in>set ms0. 0 < power m"
    using assms(2) by (rule valid_catalog_efficiency)
  from assms(1) obtain ms al r tp tr tc where
    ms: "machine_efficiency self p = Inr ms" and
    g: "greedy p (sort_desc ms) ([], site_power_limit self, 0, 0, 0) = (al, r, tp, tr, tc)" and
    used: "total_power_used plan = site_power_limit self - r"
    by (rule find_optimal_allocation_Inr)
  have eq: "ms = ms0" using ms ms0 by simp
  have pw': "\<forall>m\<in>set (sort_desc ms). 0 < power m" using pw eq by (simp add: sort_desc_set)
  have "\<forall>m\<in>set (sort_desc ms). 0 < profit_per_watt m \<longrightarrow> r < power m"
    using greedy_leftover [OF pw' g] .
  then have "\<forall>m\<in>set ms. 0 < profit_per_watt m \<longrightarrow>
      site_power_limit self - total_power_used plan < power m"
    using used by (simp add: sort_desc_set)
  with ms show ?thesis by blast
qed

theorem leftover_fits_no_unit_witness:
  "valid_catalog (inventory default_analyzer) \<and>
   (\<exists>plan ms. find_optimal_allocation default_analyzer default_prices ''2024-01-01T00:00:00'' = Inr plan \<and>
      machine_efficiency default_analyzer default_prices = Inr ms \<and>
      (\<forall>m\<in>set ms. 0 < profit_per_watt m \<longrightarrow>
         site_power_limit default_analyzer - total_power_used plan < power m))"
  using leftover_fits_no_unit [OF default_plan [of "''2024-01-01T00:00:00''"] default_valid]
    default_plan [of "''2024-01-01T00:00:00''"] default_valid
  by blast





text \<open>
  \<^bold>\<open>C2\<close> (determinism), as stated: two calls with identical catalog, prices and
  budget return plans equal in every field, the timestamp included. The timestamp is
  the clock reading of the call, so two calls one second apart differ.
\<close>

theorem timestamp_differs_counterexample:
  "find_optimal_allocation default_analyzer default_prices ''2024-01-01T00:00:00'' \<noteq>
   find_optimal_allocation default_analyzer default_prices ''2024-01-01T00:00:01''"
  by (simp add: default_plan)

text \<open>
  \<^bold>\<open>C2\<close>, amended: two calls with identical catalog, prices and budget agree on
  everything but the timestamp. The result of the call at clock reading \<open>now'\<close> is the
  result of the call at \<open>now\<close> with its timestamp replaced by \<open>now'\<close> (and the same
  error, if the first call raised).
\<close>

theorem deterministic_up_to_timestamp:
  "find_optimal_allocation self p now' =
   map_sum id (\<lambda>plan. plan\<lparr>timestamp := now'\<rparr>) (find_optimal_allocation self p now)"
  by (simp add: find_optimal_allocation_eq split: sum.splits prod.splits)

theorem deterministic_up_to_timestamp_witness:
  "find_optimal_allocation default_analyzer default_prices ''2024-01-01T00:00:01'' =
   map_sum id (\<lambda>plan. plan\<lparr>timestamp := ''2024-01-01T00:00:01''\<rparr>)
     (find_optimal_allocation default_analyzer default_prices ''2024-01-01T00:00:00'')"
  using deterministic_up_to_timestamp
    [of default_analyzer default_prices "''2024-01-01T00:00:01''" "''2024-01-01T00:00:00''"]
  by simp

section \<open>The baselines: selection loop and totals\<close>

lemma best_miner_loop_zero:
  "miner_power s = 0 \<Longrightarrow> best_miner_loop p ((k, s) # rest) (b, bp) = Inl ZeroDivisionError"
  by simp

lemma best_miner_loop_first:
  "miner_power s \<noteq> 0 \<Longrightarrow>
   best_miner_loop p ((k, s) # rest) (b, None) =
   best_miner_loop p rest (Some (k, s), Some (miner_ppw p s))"
  by (simp add: Let_def miner_ppw_def)

lemma best_miner_loop_step:
  "miner_power s \<noteq> 0 \<Longrightarrow>
   best_miner_loop p ((k, s) # rest) (b, Some q) =
   (if miner_ppw p s > q then best_miner_loop p rest (Some (k, s), Some (miner_ppw p s))
    else best_miner_loop p rest (b, Some q))"
  by (simp add: Let_def miner_ppw_def)

lemma best_miner_loop_Inl:
  "best_miner_loop p xs (b, bp) = Inl e \<longleftrightarrow>
   e = ZeroDivisionError \<and> (\<exists>x\<in>set xs. miner_power (snd x) = 0)"
proof (induction xs arbitrary: b bp)
  case Nil
  then show ?case by simp
next
  case (Cons x xs)
  obtain k s where x: "x = (k, s)" by (cases x)
  show ?case
  proof (cases "miner_power s = 0")
    case True
    then show ?thesis unfolding x by (simp only: best_miner_loop_zero) auto
  next
    case False
    show ?thesis
    proof (cases bp)
      case None
      show ?thesis unfolding x None best_miner_loop_first [OF False] Cons.IH
        using False by simp
    next
      case (Some q)
      show ?thesis unfolding x Some best_miner_loop_step [OF False]
        using False Cons.IH by simp
    qed
  qed
qed


lemma best_miner_loop_pick:
  "best_miner_loop p xs (Some b, Some (miner_ppw p (snd b))) = Inr (b', bp') \<Longrightarrow>
   \<exists>c\<in>insert b (set xs). b' = Some c \<and>
      miner_ppw p (snd b) \<le> miner_ppw p (snd c) \<and>
      (\<forall>y\<in>set xs. miner_ppw p (snd y) \<le> miner_ppw p (snd c))"
proof (induction xs arbitrary: b)
  case Nil
  then show ?case by simp
next
  case (Cons x xs)
  obtain k s where x: "x = (k, s)" by (cases x)
  have nz: "miner_power s \<noteq> 0"
    using Cons.prems best_miner_loop_zero [of s p k xs] unfolding x by fastforce
  show ?case
  proof (cases "miner_ppw p s > miner_ppw p (snd b)")
    case True
    have "best_miner_loop p xs (Some x, Some (miner_ppw p (snd x))) = Inr (b', bp')"
      using Cons.prems True unfolding x best_miner_loop_step [OF nz] by simp
    from Cons.IH [OF this] obtain c where c: "c \<in> insert x (set xs)" "b' = Some c"
      "miner_ppw p (snd x) \<le> miner_ppw p (snd c)"
      "\<forall>y\<in>set xs. miner_ppw p (snd y) \<le> miner_ppw p (snd c)" by blast
    have "c \<in> insert b (set (x # xs))" using c(1) by auto
    moreover have "miner_ppw p (snd b) \<le> miner_ppw p (snd c)" using c(3) True x by simp
    moreover have "\<forall>y\<in>set (x # xs). miner_ppw p (snd y) \<le> miner_ppw p (snd c)"
      using c(3,4) by simp
    ultimately show ?thesis using c(2) by blast
  next
    case False
    have "best_miner_loop p xs (Some b, Some (miner_ppw p (snd b))) = Inr (b', bp')"
      using Cons.prems False unfolding x best_miner_loop_step [OF nz] by simp
    from Cons.IH [OF this] obtain c where c: "c \<in> insert b (set xs)" "b' = Some c"
      "miner_ppw p (snd b) \<le> miner_ppw p (snd c)"
      "\<forall>y\<in>set xs. miner_ppw p (snd y) \<le> miner_ppw p (snd c)" by blast
    have "c \<in> insert b (set (x # xs))" using c(1) by auto
    moreover have "miner_ppw p (snd x) \<le> miner_ppw p (snd c)" using c(3) False x by simp
    then have "\<forall>y\<in>set (x # xs). miner_ppw p (snd y) \<le> miner_ppw p (snd c)"
      using c(4) by simp
    ultimately show ?thesis using c(2,3) by blast
  qed
qed

lemma best_miner_loop_start:
  assumes "best_miner_loop p xs (None, None) = Inr (b', bp')"
  shows "(xs = [] \<and> b' = None) \<or>
         (\<exists>c\<in>set xs. b' = Some c \<and> miner_power (snd c) \<noteq> 0 \<and>
            (\<forall>y\<in>set xs. miner_ppw p (snd y) \<le> miner_ppw p (snd c)))"
proof (cases xs)
  case Nil
  then show ?thesis using assms by simp
next
  case (Cons x rest)
  obtain k s where x: "x = (k, s)" by (cases x)
  have nz: "\<forall>y\<in>set xs. miner_power (snd y) \<noteq> 0"
    using best_miner_loop_Inl [of p xs None None ZeroDivisionError] assms by auto
  then have nzs: "miner_power s \<noteq> 0" unfolding Cons x by simp
  have "best_miner_loop p rest (Some x, Some (miner_ppw p (snd x))) = Inr (b', bp')"
    using assms unfolding Cons x best_miner_loop_first [OF nzs] by simp
  from best_miner_loop_pick [OF this] obtain c where c: "c \<in> insert x (set rest)" "b' = Some c"
      "miner_ppw p (snd x) \<le> miner_ppw p (snd c)"
      "\<forall>y\<in>set rest. miner_ppw p (snd y) \<le> miner_ppw p (snd c)" by blast
  have "c \<in> set xs" using c(1) Cons by auto
  moreover have "\<forall>y\<in>set xs. miner_ppw p (snd y) \<le> miner_ppw p (snd c)"
    using c(3,4) Cons by simp
  ultimately show ?thesis using c(2) nz by blast
qed


lemma mining_only_Inl:
  "mining_only_strategy self p = Inl e \<longleftrightarrow>
   e = ZeroDivisionError \<and> (\<exists>x\<in>set (miners (inventory self)). miner_power (snd x) = 0)"
proof -
  have "mining_only_strategy self p = Inl e \<longleftrightarrow>
        best_miner_loop p (miners (inventory self)) (None, None) = Inl e"
    by (auto simp: mining_only_strategy_eq Let_def split: sum.splits option.splits prod.splits)
  then show ?thesis by (simp only: best_miner_loop_Inl)
qed

lemma mining_only_result:
  assumes "mining_only_strategy self p = Inr r"
  shows "(miners (inventory self) = [] \<and> r = zero_totals) \<or>
         (\<exists>c\<in>set (miners (inventory self)). miner_power (snd c) \<noteq> 0 \<and>
            (\<forall>y\<in>set (miners (inventory self)). miner_ppw p (snd y) \<le> miner_ppw p (snd c)) \<and>
            total_revenue r =
              real_of_int (site_power_limit self div miner_power (snd c)) *
              hashrate (snd c) * hash_price p \<and>
            total_cost r =
              real_of_int (site_power_limit self div miner_power (snd c) * miner_power (snd c)) *
              energy_price p \<and>
            total_profit r = total_revenue r - total_cost r)"
proof -
  from assms obtain b' bp' where
    l: "best_miner_loop p (miners (inventory self)) (None, None) = Inr (b', bp')"
    by (auto simp: mining_only_strategy_eq split: sum.splits)
  from best_miner_loop_start [OF l] show ?thesis
  proof
    assume "miners (inventory self) = [] \<and> b' = None"
    then show ?thesis using assms l by (simp add: mining_only_strategy_eq)
  next
    assume "\<exists>c\<in>set (miners (inventory self)). b' = Some c \<and> miner_power (snd c) \<noteq> 0 \<and>
            (\<forall>y\<in>set (miners (inventory self)). miner_ppw p (snd y) \<le> miner_ppw p (snd c))"
    then obtain c where c: "c \<in> set (miners (inventory self))" "b' = Some c"
      "miner_power (snd c) \<noteq> 0"
      "\<forall>y\<in>set (miners (inventory self)). miner_ppw p (snd y) \<le> miner_ppw p (snd c)" by blast
    have "total_revenue r =
              real_of_int (site_power_limit self div miner_power (snd c)) *
              hashrate (snd c) * hash_price p \<and>
            total_cost r =
              real_of_int (site_power_limit self div miner_power (snd c) * miner_power (snd c)) *
              energy_price p \<and>
            total_profit r = total_revenue r - total_cost r"
      using assms l c(2) by (auto simp: mining_only_strategy_eq Let_def)
    with c show ?thesis by blast
  qed
qed



lemma best_compute_loop_zero:
  "inference_power s = 0 \<Longrightarrow> best_compute_loop p ((k, s) # rest) (b, bp) = Inl ZeroDivisionError"
  by simp

lemma best_compute_loop_first:
  "inference_power s \<noteq> 0 \<Longrightarrow>
   best_compute_loop p ((k, s) # rest) (b, None) =
   best_compute_loop p rest (Some (k, s), Some (compute_ppw p s))"
  by (simp add: Let_def compute_ppw_def)

lemma best_compute_loop_step:
  "inference_power s \<noteq> 0 \<Longrightarrow>
   best_compute_loop p ((k, s) # rest) (b, Some q) =
   (if compute_ppw p s > q then best_compute_loop p rest (Some (k, s), Some (compute_ppw p s))
    else best_compute_loop p rest (b, Some q))"
  by (simp add: Let_def compute_ppw_def)

lemma best_compute_loop_Inl:
  "best_compute_loop p xs (b, bp) = Inl e \<longleftrightarrow>
   e = ZeroDivisionError \<and> (\<exists>x\<in>set xs. inference_power (snd x) = 0)"
proof (induction xs arbitrary: b bp)
  case Nil
  then show ?case by simp
next
  case (Cons x xs)
  obtain k s where x: "x = (k, s)" by (cases x)
  show ?case
  proof (cases "inference_power s = 0")
    case True
    then show ?thesis unfolding x by (simp only: best_compute_loop_zero) auto
  next
    case False
    show ?thesis
    proof (cases bp)
      case None
      show ?thesis unfolding x None best_compute_loop_first [OF False] Cons.IH
        using False by simp
    next
      case (Some q)
      show ?thesis unfolding x Some best_compute_loop_step [OF False]
        using False Cons.IH by simp
    qed
  qed
qed


lemma best_compute_loop_pick:
  "best_compute_loop p xs (Some b, Some (compute_ppw p (snd b))) = Inr (b', bp') \<Longrightarrow>
   \<exists>c\<in>insert b (set xs). b' = Some c \<and>
      compute_ppw p (snd b) \<le> compute_ppw p (snd c) \<and>
      (\<forall>y\<in>set xs. compute_ppw p (snd y) \<le> compute_ppw p (snd c))"
proof (induction xs arbitrary: b)
  case Nil
  then show ?case by simp
next
  case (Cons x xs)
  obtain k s where x: "x = (k, s)" by (cases x)
  have nz: "inference_power s \<noteq> 0"
    using Cons.prems best_compute_loop_zero [of s p k xs] unfolding x by fastforce
  show ?case
  proof (cases "compute_ppw p s > compute_ppw p (snd b)")
    case True
    have "best_compute_loop p xs (Some x, Some (compute_ppw p (snd x))) = Inr (b', bp')"
      using Cons.prems True unfolding x best_compute_loop_step [OF nz] by simp
    from Cons.IH [OF this] obtain c where c: "c \<in> insert x (set xs)" "b' = Some c"
      "compute_ppw p (snd x) \<le> compute_ppw p (snd c)"
      "\<forall>y\<in>set xs. compute_ppw p (snd y) \<le> compute_ppw p (snd c)" by blast
    have "c \<in> insert b (set (x # xs))" using c(1) by auto
    moreover have "compute_ppw p (snd b) \<le> compute_ppw p (snd c)" using c(3) True x by simp
    moreover have "\<forall>y\<in>set (x # xs). compute_ppw p (snd y) \<le> compute_ppw p (snd c)"
      using c(3,4) by simp
    ultimately show ?thesis using c(2) by blast
  next
    case False
    have "best_compute_loop p xs (Some b, Some (compute_ppw p (snd b))) = Inr (b', bp')"
      using Cons.prems False unfolding x best_compute_loop_step [OF nz] by simp
    from Cons.IH [OF this] obtain c where c: "c \<in> insert b (set xs)" "b' = Some c"
      "compute_ppw p (snd b) \<le> compute_ppw p (snd c)"
      "\<forall>y\<in>set xs. compute_ppw p (snd y) \<le> compute_ppw p (snd c)" by blast
    have "c \<in> insert b (set (x # xs))" using c(1) by auto
    moreover have "compute_ppw p (snd x) \<le> compute_ppw p (snd c)" using c(3) False x by simp
    then have "\<forall>y\<in>set (x # xs). compute_ppw p (snd y) \<le> compute_ppw p (snd c)"
      using c(4) by simp
    ultimately show ?thesis using c(2,3) by blast
  qed
qed

lemma best_compute_loop_start:
  assumes "best_compute_loop p xs (None, None) = Inr (b', bp')"
  shows "(xs = [] \<and> b' = None) \<or>
         (\<exists>c\<in>set xs. b' = Some c \<and> inference_power (snd c) \<noteq> 0 \<and>
            (\<forall>y\<in>set xs. compute_ppw p (snd y) \<le> compute_ppw p (snd c)))"
proof (cases xs)
  case Nil
  then show ?thesis using assms by simp
next
  case (Cons x rest)
  obtain k s where x: "x = (k, s)" by (cases x)
  have nz: "\<forall>y\<in>set xs. inference_power (snd y) \<noteq> 0"
    using best_compute_loop_Inl [of p xs None None ZeroDivisionError] assms by auto
  then have nzs: "inference_power s \<noteq> 0" unfolding Cons x by simp
  have "best_compute_loop p rest (Some x, Some (compute_ppw p (snd x))) = Inr (b', bp')"
    using assms unfolding Cons x best_compute_loop_first [OF nzs] by simp
  from best_compute_loop_pick [OF this] obtain c where c: "c \<in> insert x (set rest)" "b' = Some c"
      "compute_ppw p (snd x) \<le> compute_ppw p (snd c)"
      "\<forall>y\<in>set rest. compute_ppw p (snd y) \<le> compute_ppw p (snd c)" by blast
  have "c \<in> set xs" using c(1) Cons by auto
  moreover have "\<forall>y\<in>set xs. compute_ppw p (snd y) \<le> compute_ppw p (snd c)"
    using c(3,4) Cons by simp
  ultimately show ?thesis using c(2) nz by blast
qed


lemma inference_only_Inl:
  "inference_only_strategy self p = Inl e \<longleftrightarrow>
   e = ZeroDivisionError \<and> (\<exists>x\<in>set (inference (inventory self)). inference_power (snd x) = 0)"
proof -
  have "inference_only_strategy self p = Inl e \<longleftrightarrow>
        best_compute_loop p (inference (inventory self)) (None, None) = Inl e"
    by (auto simp: inference_only_strategy_eq Let_def split: sum.splits option.splits prod.splits)
  then show ?thesis by (simp only: best_compute_loop_Inl)
qed

lemma inference_only_result:
  assumes "inference_only_strategy self p = Inr r"
  shows "(inference (inventory self) = [] \<and> r = zero_totals) \<or>
         (\<exists>c\<in>set (inference (inventory self)). inference_power (snd c) \<noteq> 0 \<and>
            (\<forall>y\<in>set (inference (inventory self)). compute_ppw p (snd y) \<le> compute_ppw p (snd c)) \<and>
            total_revenue r =
              real_of_int (site_power_limit self div inference_power (snd c)) *
              tokens (snd c) * token_price p \<and>
            total_cost r =
              real_of_int (site_power_limit self div inference_power (snd c) * inference_power (snd c)) *
              energy_price p \<and>
            total_profit r = total_revenue r - total_cost r)"
proof -
  from assms obtain b' bp' where
    l: "best_compute_loop p (inference (inventory self)) (None, None) = Inr (b', bp')"
    by (auto simp: inference_only_strategy_eq split: sum.splits)
  from best_compute_loop_start [OF l] show ?thesis
  proof
    assume "inference (inventory self) = [] \<and> b' = None"
    then show ?thesis using assms l by (simp add: inference_only_strategy_eq)
  next
    assume "\<exists>c\<in>set (inference (inventory self)). b' = Some c \<and> inference_power (snd c) \<noteq> 0 \<and>
            (\<forall>y\<in>set (inference (inventory self)). compute_ppw p (snd y) \<le> compute_ppw p (snd c))"
    then obtain c where c: "c \<in> set (inference (inventory self))" "b' = Some c"
      "inference_power (snd c) \<noteq> 0"
      "\<forall>y\<in>set (inference (inventory self)). compute_ppw p (snd y) \<le> compute_ppw p (snd c)" by blast
    have "total_revenue r =
              real_of_int (site_power_limit self div inference_power (snd c)) *
              tokens (snd c) * token_price p \<and>
            total_cost r =
              real_of_int (site_power_limit self div inference_power (snd c) * inference_power (snd c)) *
              energy_price p \<and>
            total_profit r = total_revenue r - total_cost r"
      using assms l c(2) by (auto simp: inference_only_strategy_eq Let_def)
    with c show ?thesis by blast
  qed
qed



lemma default_mining:
  "mining_only_strategy default_analyzer default_prices =
   Inr \<lparr>total_profit = 7850000, total_revenue = 8500000, total_cost = 650000,
        roi_percentage = 78500 / 65\<rparr>"
  by (simp add: mining_only_strategy_eq default_analyzer_def default_inventory_def
      default_prices_def Let_def)

lemma default_inference:
  "inference_only_strategy default_analyzer default_prices =
   Inr \<lparr>total_profit = 9256500, total_revenue = 9900000, total_cost = 643500,
        roi_percentage = 925650000 / 643500\<rparr>"
  by (simp add: inference_only_strategy_eq default_analyzer_def default_inventory_def
      default_prices_def Let_def)




section \<open>Claims about the baselines and the return on investment\<close>




lemma unprofitable_mining:
  "mining_only_strategy default_analyzer
     \<lparr>energy_price = 65 / 100, hash_price = 0, token_price = 0\<rparr> =
   Inr \<lparr>total_profit = - 648375, total_revenue = 0, total_cost = 648375,
        roi_percentage = - 100\<rparr>"
  by (simp add: mining_only_strategy_eq default_analyzer_def default_inventory_def Let_def)

lemma unprofitable_inference:
  "inference_only_strategy default_analyzer
     \<lparr>energy_price = 65 / 100, hash_price = 0, token_price = 0\<rparr> =
   Inr \<lparr>total_profit = - 650000, total_revenue = 0, total_cost = 650000,
        roi_percentage = - 100\<rparr>"
  by (simp add: inference_only_strategy_eq default_analyzer_def default_inventory_def Let_def)

text \<open>
  \<^bold>\<open>C4\<close> (unprofitable category), as stated: a baseline returns the zero plan when
  every device of its category has \<open>profit_per_watt \<le> 0\<close>. With a hash price of \<open>0\<close>
  every default miner has profit per watt \<open>-0.65\<close>, and the mining-only strategy still
  buys 285 air miners, at a loss of 648375.
\<close>

theorem mining_only_unprofitable_counterexample:
  "miner_ppw \<lparr>energy_price = 65 / 100, hash_price = 0, token_price = 3\<rparr>
     \<lparr>miner_power = 3500, hashrate = 1000\<rparr> \<le> 0 \<and>
   miner_ppw \<lparr>energy_price = 65 / 100, hash_price = 0, token_price = 3\<rparr>
     \<lparr>miner_power = 5000, hashrate = 5000\<rparr> \<le> 0 \<and>
   miner_ppw \<lparr>energy_price = 65 / 100, hash_price = 0, token_price = 3\<rparr>
     \<lparr>miner_power = 10000, hashrate = 10000\<rparr> \<le> 0 \<and>
   mining_only_strategy default_analyzer
     \<lparr>energy_price = 65 / 100, hash_price = 0, token_price = 3\<rparr> =
   Inr \<lparr>total_profit = - 648375, total_revenue = 0, total_cost = 648375,
        roi_percentage = - 100\<rparr>"
  by (simp add: miner_ppw_def mining_only_strategy_eq default_analyzer_def
      default_inventory_def Let_def)

text \<open>
  \<^bold>\<open>C4\<close>, amended: a baseline returns the zero plan when its category is empty. When
  the category is not empty, a result that the baseline returns is never decided by
  profitability: the baseline has selected a device of the category with the highest
  profit per watt, positive or not, and returns the totals of
  \<open>site_power_limit div power\<close> units of it, that is, \<open>total_revenue = units *
  capability * price\<close>, \<open>total_cost = (units * power) * energy_price\<close> and
  \<open>total_profit = total_revenue - total_cost\<close>.
\<close>

theorem baselines_unprofitable_category:
  "(miners (inventory self) = [] \<longrightarrow> mining_only_strategy self p = Inr zero_totals) \<and>
   (inference (inventory self) = [] \<longrightarrow> inference_only_strategy self p = Inr zero_totals) \<and>
   (miners (inventory self) \<noteq> [] \<and> mining_only_strategy self p = Inr mo \<longrightarrow>
      (\<exists>c\<in>set (miners (inventory self)).
         (\<forall>y\<in>set (miners (inventory self)). miner_ppw p (snd y) \<le> miner_ppw p (snd c)) \<and>
         total_revenue mo =
           real_of_int (site_power_limit self div miner_power (snd c)) *
           hashrate (snd c) * hash_price p \<and>
         total_cost mo =
           real_of_int (site_power_limit self div miner_power (snd c) * miner_power (snd c)) *
           energy_price p \<and>
         total_profit mo = total_revenue mo - total_cost mo)) \<and>
   (inference (inventory self) \<noteq> [] \<and> inference_only_strategy self p = Inr io \<longrightarrow>
      (\<exists>c\<in>set (inference (inventory self)).
         (\<forall>y\<in>set (inference (inventory self)). compute_ppw p (snd y) \<le> compute_ppw p (snd c)) \<and>
         total_revenue io =
           real_of_int (site_power_limit self div inference_power (snd c)) *
           tokens (snd c) * token_price p \<and>
         total_cost io =
           real_of_int (site_power_limit self div inference_power (snd c) * inference_power (snd c)) *
           energy_price p \<and>
         total_profit io = total_revenue io - total_cost io))"
proof (intro conjI impI)
  assume "miners (inventory self) = []"
  then show "mining_only_strategy self p = Inr zero_totals"
    by (simp add: mining_only_strategy_eq)
next
  assume "inference (inventory self) = []"
  then show "inference_only_strategy self p = Inr zero_totals"
    by (simp add: inference_only_strategy_eq)
next
  assume a: "miners (inventory self) \<noteq> [] \<and> mining_only_strategy self p = Inr mo"
  then have r: "mining_only_strategy self p = Inr mo" by (rule conjunct2)
  from mining_only_result [OF r] a
  show "\<exists>c\<in>set (miners (inventory self)).
         (\<forall>y\<in>set (miners (inventory self)). miner_ppw p (snd y) \<le> miner_ppw p (snd c)) \<and>
         total_revenue mo =
           real_of_int (site_power_limit self div miner_power (snd c)) *
           hashrate (snd c) * hash_price p \<and>
         total_cost mo =
           real_of_int (site_power_limit self div miner_power (snd c) * miner_power (snd c)) *
           energy_price p \<and>
         total_profit mo = total_revenue mo - total_cost mo"
    by blast
next
  assume a: "inference (inventory self) \<noteq> [] \<and> inference_only_strategy self p = Inr io"
  then have r: "inference_only_strategy self p = Inr io" by (rule conjunct2)
  from inference_only_result [OF r] a
  show "\<exists>c\<in>set (inference (inventory self)).
         (\<forall>y\<in>set (inference (inventory self)). compute_ppw p (snd y) \<le> compute_ppw p (snd c)) \<and>
         total_revenue io =
           real_of_int (site_power_limit self div inference_power (snd c)) *
           tokens (snd c) * token_price p \<and>
         total_cost io =
           real_of_int (site_power_limit self div inference_power (snd c) * inference_power (snd c)) *
           energy_price p \<and>
         total_profit io = total_revenue io - total_cost io"
    by blast
qed

theorem baselines_unprofitable_category_witness:
  "mining_only_strategy
     \<lparr>inventory = \<lparr>miners = [], inference = []\<rparr>, site_power_limit = 1000000\<rparr> default_prices =
   Inr zero_totals \<and>
   inference_only_strategy
     \<lparr>inventory = \<lparr>miners = [], inference = []\<rparr>, site_power_limit = 1000000\<rparr> default_prices =
   Inr zero_totals \<and>
   (\<exists>c\<in>set (miners (inventory default_analyzer)).
      (\<forall>y\<in>set (miners (inventory default_analyzer)).
         miner_ppw \<lparr>energy_price = 65 / 100, hash_price = 0, token_price = 0\<rparr> (snd y) \<le>
         miner_ppw \<lparr>energy_price = 65 / 100, hash_price = 0, token_price = 0\<rparr> (snd c)) \<and>
      miner_ppw \<lparr>energy_price = 65 / 100, hash_price = 0, token_price = 0\<rparr> (snd c) \<le> 0 \<and>
      (648375 :: real) =
        real_of_int (site_power_limit default_analyzer div miner_power (snd c) * miner_power (snd c)) *
        (65 / 100)) \<and>
   (\<exists>c\<in>set (inference (inventory default_analyzer)).
      (\<forall>y\<in>set (inference (inventory default_analyzer)).
         compute_ppw \<lparr>energy_price = 65 / 100, hash_price = 0, token_price = 0\<rparr> (snd y) \<le>
         compute_ppw \<lparr>energy_price = 65 / 100, hash_price = 0, token_price = 0\<rparr> (snd c)) \<and>
      compute_ppw \<lparr>energy_price = 65 / 100, hash_price = 0, token_price = 0\<rparr> (snd c) \<le> 0 \<and>
      (650000 :: real) =
        real_of_int (site_power_limit default_analyzer div inference_power (snd c) *
          inference_power (snd c)) * (65 / 100))"
proof -
  let ?E = "\<lparr>inventory = \<lparr>miners = [], inference = []\<rparr>, site_power_limit = 1000000\<rparr>"
  let ?p = "\<lparr>energy_price = 65 / 100, hash_price = 0, token_price = 0\<rparr>"
  let ?mo = "\<lparr>total_profit = - 648375, total_revenue = 0, total_cost = 648375,
        roi_percentage = - 100\<rparr> :: totals"
  let ?io = "\<lparr>total_profit = - 650000, total_revenue = 0, total_cost = 650000,
        roi_percentage = - 100\<rparr> :: totals"
  note e = baselines_unprofitable_category [of ?E default_prices]
  note d = baselines_unprofitable_category [of default_analyzer ?p ?mo ?io]
  have m: "miners (inventory default_analyzer) \<noteq> [] \<and>
      mining_only_strategy default_analyzer ?p = Inr ?mo"
    using unprofitable_mining by (simp add: default_analyzer_def default_inventory_def)
  have i: "inference (inventory default_analyzer) \<noteq> [] \<and>
      inference_only_strategy default_analyzer ?p = Inr ?io"
    using unprofitable_inference by (simp add: default_analyzer_def default_inventory_def)
  have allm: "\<forall>c\<in>set (miners (inventory default_analyzer)). miner_ppw ?p (snd c) \<le> 0"
    by (simp add: default_analyzer_def default_inventory_def miner_ppw_def)
  have alli: "\<forall>c\<in>set (inference (inventory default_analyzer)). compute_ppw ?p (snd c) \<le> 0"
    by (simp add: default_analyzer_def default_inventory_def compute_ppw_def)
  have 1: "mining_only_strategy ?E default_prices = Inr zero_totals"
    using e [THEN conjunct1] by simp
  have 2: "inference_only_strategy ?E default_prices = Inr zero_totals"
    using e [THEN conjunct2, THEN conjunct1] by simp
  from d [THEN conjunct2, THEN conjunct2, THEN conjunct1, THEN mp, OF m]
  obtain c where c: "c \<in> set (miners (inventory default_analyzer))"
    "\<forall>y\<in>set (miners (inventory default_analyzer)). miner_ppw ?p (snd y) \<le> miner_ppw ?p (snd c)"
    "total_cost ?mo =
       real_of_int (site_power_limit default_analyzer div miner_power (snd c) * miner_power (snd c)) *
       energy_price ?p"
    by blast
  have 3: "\<exists>c\<in>set (miners (inventory default_analyzer)).
      (\<forall>y\<in>set (miners (inventory default_analyzer)). miner_ppw ?p (snd y) \<le> miner_ppw ?p (snd c)) \<and>
      miner_ppw ?p (snd c) \<le> 0 \<and>
      (648375 :: real) =
        real_of_int (site_power_limit default_analyzer div miner_power (snd c) * miner_power (snd c)) *
        (65 / 100)"
    using c allm by (intro bexI [of _ c]) simp_all
  from d [THEN conjunct2, THEN conjunct2, THEN conjunct2, THEN mp, OF i]
  obtain c' where c': "c' \<in> set (inference (inventory default_analyzer))"
    "\<forall>y\<in>set (inference (inventory default_analyzer)).
       compute_ppw ?p (snd y) \<le> compute_ppw ?p (snd c')"
    "total_cost ?io =
       real_of_int (site_power_limit default_analyzer div inference_power (snd c') *
         inference_power (snd c')) * energy_price ?p"
    by blast
  have 4: "\<exists>c\<in>set (inference (inventory default_analyzer)).
      (\<forall>y\<in>set (inference (inventory default_analyzer)).
         compute_ppw ?p (snd y) \<le> compute_ppw ?p (snd c)) \<and>
      compute_ppw ?p (snd c) \<le> 0 \<and>
      (650000 :: real) =
        real_of_int (site_power_limit default_analyzer div inference_power (snd c) *
          inference_power (snd c)) * (65 / 100)"
    using c' alli by (intro bexI [of _ c']) simp_all
  from 1 2 3 4 show ?thesis by (intro conjI)
qed

section \<open>Optimizer against the baselines\<close>








section \<open>Claims about the simulator\<close>

lemma strategy_result_returns:
  assumes v: "valid_catalog (inventory self)"
    and s: "strategy \<in> {''optimal'', ''mining_only'', ''inference_only''}"
  shows "\<exists>r. strategy_result self now strategy q = Inr r"
proof -
  have mpos: "\<forall>x\<in>set (miners (inventory self)). 0 < miner_power (snd x)"
    and ipos: "\<forall>x\<in>set (inference (inventory self)). 0 < inference_power (snd x)"
    using v by (simp_all add: valid_catalog_def list_all_iff)
  consider "strategy = ''optimal''" | "strategy = ''mining_only''" | "strategy = ''inference_only''"
    using s by (simp only: insert_iff empty_iff) blast
  then show ?thesis
  proof cases
    case 1
    obtain ms where "machine_efficiency self q = Inr ms"
      using v by (rule valid_catalog_efficiency)
    from find_optimal_allocation_returns [OF this, of now] show ?thesis
      unfolding strategy_result_def 1 by auto
  next
    case 2
    have "mining_only_strategy self q \<noteq> Inl e" for e
    proof
      assume "mining_only_strategy self q = Inl e"
      then have "\<exists>x\<in>set (miners (inventory self)). miner_power (snd x) = 0"
        by (simp only: mining_only_Inl)
      with mpos show False by fastforce
    qed
    then obtain r where "mining_only_strategy self q = Inr r"
      by (cases "mining_only_strategy self q") auto
    then show ?thesis unfolding strategy_result_def 2 by simp
  next
    case 3
    have "inference_only_strategy self q \<noteq> Inl e" for e
    proof
      assume "inference_only_strategy self q = Inl e"
      then have "\<exists>x\<in>set (inference (inventory self)). inference_power (snd x) = 0"
        by (simp only: inference_only_Inl)
      with ipos show False by fastforce
    qed
    then obtain r where "inference_only_strategy self q = Inr r"
      by (cases "inference_only_strategy self q") auto
    then show ?thesis unfolding strategy_result_def 3 by simp
  qed
qed

lemma simulate_rows_returns:
  assumes "valid_catalog (inventory self)"
    and "strategy \<in> {''optimal'', ''mining_only'', ''inference_only''}"
  shows "\<exists>rs. simulate_rows self clock strategy i rows = Inr rs"
proof (induction rows arbitrary: i)
  case Nil
  then show ?case by simp
next
  case (Cons row rows)
  obtain r where "strategy_result self (clock i) strategy (row_prices row) = Inr r"
    using strategy_result_returns [OF assms] by blast
  moreover obtain rs where "simulate_rows self clock strategy (Suc i) rows = Inr rs"
    using Cons.IH by blast
  ultimately show ?case by simp
qed

lemma simulate_rows_records:
  "simulate_rows self clock strategy i rows = Inr rs \<Longrightarrow>
   length rs = length rows \<and>
   (\<forall>j<length rows. \<exists>r.
      strategy_result self (clock (i + j)) strategy (row_prices (rows ! j)) = Inr r \<and>
      rs ! j = \<lparr>rr_timestamp = row_timestamp (rows ! j), rr_profit = total_profit r,
                 rr_revenue = total_revenue r, rr_cost = total_cost r,
                 rr_roi = roi_percentage r\<rparr>)"
proof (induction rows arbitrary: i rs)
  case Nil
  then show ?case by simp
next
  case (Cons row rows)
  from Cons.prems obtain r rs' where
    r: "strategy_result self (clock i) strategy (row_prices row) = Inr r" and
    rs': "simulate_rows self clock strategy (Suc i) rows = Inr rs'" and
    rs: "rs = \<lparr>rr_timestamp = row_timestamp row, rr_profit = total_profit r,
                rr_revenue = total_revenue r, rr_cost = total_cost r,
                rr_roi = roi_percentage r\<rparr> # rs'"
    by (auto split: sum.splits)
  note ih = Cons.IH [OF rs']
  have len: "length rs = length (row # rows)" using ih rs by simp
  have "\<exists>r. strategy_result self (clock (i + j)) strategy (row_prices ((row # rows) ! j)) = Inr r \<and>
      rs ! j = \<lparr>rr_timestamp = row_timestamp ((row # rows) ! j), rr_profit = total_profit r,
                 rr_revenue = total_revenue r, rr_cost = total_cost r,
                 rr_roi = roi_percentage r\<rparr>"
    if j: "j < length (row # rows)" for j
  proof (cases j)
    case 0
    then show ?thesis using r rs by simp
  next
    case (Suc k)
    then have "k < length rows" using j by simp
    with ih obtain r' where
      "strategy_result self (clock (Suc i + k)) strategy (row_prices (rows ! k)) = Inr r'"
      "rs' ! k = \<lparr>rr_timestamp = row_timestamp (rows ! k), rr_profit = total_profit r',
                 rr_revenue = total_revenue r', rr_cost = total_cost r',
                 rr_roi = roi_percentage r'\<rparr>"
      by blast
    then show ?thesis unfolding Suc rs by simp
  qed
  with len show ?case by blast
qed

text \<open>
  \<^bold>\<open>C5\<close> (simulator output), as stated: an empty price history gives an empty
  sequence, not a null value. The code returns \<^verbatim>\<open>None\<close> for an empty data frame.
\<close>

theorem simulate_empty_history_counterexample:
  "simulate_strategy default_analyzer (\<lambda>i. ''2024-01-01T00:00:00'') ''optimal'' (DataFrame []) =
   Inr None"
  by (simp add: simulate_strategy_def)

text \<open>
  \<^bold>\<open>C5\<close>, amended: for an empty price history \<open>simulate_strategy\<close> returns
  \<^verbatim>\<open>None\<close>. For a non-empty history, a catalog whose entries all have positive power
  and one of the three strategy names, it returns a frame with exactly one record per
  row, in the order of the rows: the record of index \<open>j\<close> carries the timestamp of row
  \<open>j\<close> and the four totals of the chosen strategy at the prices of row \<open>j\<close>. Whenever
  a frame is returned, for any catalog, it has that shape.
\<close>

theorem simulate_one_record_per_row:
  "simulate_strategy self clock strategy (DataFrame []) = Inr None \<and>
   (df \<noteq> [] \<and> valid_catalog (inventory self) \<and>
    strategy \<in> {''optimal'', ''mining_only'', ''inference_only''} \<longrightarrow>
      (\<exists>rs. simulate_strategy self clock strategy (DataFrame df) = Inr (Some rs))) \<and>
   (simulate_strategy self clock strategy (DataFrame df) = Inr (Some rs) \<longrightarrow>
      length rs = length df \<and>
      map rr_timestamp rs = map row_timestamp df \<and>
      (\<forall>j<length df. \<exists>r.
         strategy_result self (clock j) strategy (row_prices (df ! j)) = Inr r \<and>
         rs ! j = \<lparr>rr_timestamp = row_timestamp (df ! j), rr_profit = total_profit r,
                    rr_revenue = total_revenue r, rr_cost = total_cost r,
                    rr_roi = roi_percentage r\<rparr>))"
proof (intro conjI impI)
  show "simulate_strategy self clock strategy (DataFrame []) = Inr None"
    by (simp add: simulate_strategy_def)
next
  assume a: "df \<noteq> [] \<and> valid_catalog (inventory self) \<and>
    strategy \<in> {''optimal'', ''mining_only'', ''inference_only''}"
  then have ne: "df \<noteq> []" and v: "valid_catalog (inventory self)"
    and s: "strategy \<in> {''optimal'', ''mining_only'', ''inference_only''}"
    by (rule conjunct1, rule conjunct2 [THEN conjunct1], rule conjunct2 [THEN conjunct2])
  obtain rs where "simulate_rows self clock strategy 0 df = Inr rs"
    using simulate_rows_returns [OF v s] by fast
  then show "\<exists>rs. simulate_strategy self clock strategy (DataFrame df) = Inr (Some rs)"
    using ne by (simp add: simulate_strategy_def)
next
  assume "simulate_strategy self clock strategy (DataFrame df) = Inr (Some rs)"
  then have sr: "simulate_rows self clock strategy 0 df = Inr rs"
    by (cases "simulate_rows self clock strategy 0 df")
      (auto simp: simulate_strategy_def split: if_splits)
  note rec = simulate_rows_records [OF sr]
  show len: "length rs = length df" using rec by (rule conjunct1)
  show recs: "\<forall>j<length df. \<exists>r.
         strategy_result self (clock j) strategy (row_prices (df ! j)) = Inr r \<and>
         rs ! j = \<lparr>rr_timestamp = row_timestamp (df ! j), rr_profit = total_profit r,
                    rr_revenue = total_revenue r, rr_cost = total_cost r,
                    rr_roi = roi_percentage r\<rparr>"
    using rec [THEN conjunct2] by (simp only: add_0)
  show "map rr_timestamp rs = map row_timestamp df"
  proof (rule nth_equalityI)
    show "length (map rr_timestamp rs) = length (map row_timestamp df)" using len by simp
  next
    fix j assume "j < length (map rr_timestamp rs)"
    then have j: "j < length df" using len by simp
    with recs obtain r :: totals where
      "rs ! j = \<lparr>rr_timestamp = row_timestamp (df ! j), rr_profit = total_profit r,
                    rr_revenue = total_revenue r, rr_cost = total_cost r,
                    rr_roi = roi_percentage r\<rparr>" by blast
    then show "map rr_timestamp rs ! j = map row_timestamp df ! j"
      using j len by simp
  qed
qed


theorem simulate_one_record_per_row_witness:
  "\<exists>rs. simulate_strategy default_analyzer (\<lambda>i. ''2024-01-02T00:00:00'') ''mining_only''
          (DataFrame
             [\<lparr>energy_price = 65 / 100, hash_price = 85 / 10, token_price = 3,
               row_timestamp = ''2024-01-01T00:00:00''\<rparr>,
              \<lparr>energy_price = 70 / 100, hash_price = 8, token_price = 3,
               row_timestamp = ''2024-01-01T00:05:00''\<rparr>]) = Inr (Some rs) \<and>
        length rs = 2 \<and>
        map rr_timestamp rs = [''2024-01-01T00:00:00'', ''2024-01-01T00:05:00'']"
proof -
  let ?df = "[\<lparr>energy_price = 65 / 100, hash_price = 85 / 10, token_price = 3,
               row_timestamp = ''2024-01-01T00:00:00''\<rparr>,
              \<lparr>energy_price = 70 / 100, hash_price = 8, token_price = 3,
               row_timestamp = ''2024-01-01T00:05:00''\<rparr>]"
  let ?clock = "\<lambda>i::nat. ''2024-01-02T00:00:00''"
  have h1: "?df \<noteq> []" by simp
  have h3: "''mining_only'' \<in> {''optimal'', ''mining_only'', ''inference_only''}" by simp
  have h: "?df \<noteq> [] \<and> valid_catalog (inventory default_analyzer) \<and>
    ''mining_only'' \<in> {''optimal'', ''mining_only'', ''inference_only''}"
    using h1 default_valid h3 by (intro conjI)
  have "\<exists>rs. simulate_strategy default_analyzer ?clock ''mining_only'' (DataFrame ?df) =
    Inr (Some rs)"
    by (rule simulate_one_record_per_row [of default_analyzer ?clock "''mining_only''" ?df,
      THEN conjunct2, THEN conjunct1, THEN mp, OF h])
  then obtain rs where rs: "simulate_strategy default_analyzer ?clock ''mining_only'' (DataFrame ?df) =
    Inr (Some rs)" ..
  note shape = simulate_one_record_per_row [of default_analyzer ?clock "''mining_only''" ?df rs,
      THEN conjunct2, THEN conjunct2, THEN mp, OF rs]
  have len: "length rs = length ?df" using shape by (rule conjunct1)
  have tsm: "map rr_timestamp rs = map row_timestamp ?df"
    using shape by (rule conjunct2 [THEN conjunct1])
  have l2: "length ?df = 2"
    and ts: "map row_timestamp ?df = [''2024-01-01T00:00:00'', ''2024-01-01T00:05:00'']"
    by simp_all
  have len2: "length rs = 2" using len l2 by (rule trans)
  have ts2: "map rr_timestamp rs = [''2024-01-01T00:00:00'', ''2024-01-01T00:05:00'']"
    using tsm ts by (rule trans)
  show ?thesis
    by (rule exI [where x = rs]) (intro conjI rs len2 ts2)
qed

end
